theory Spec2Isabelle
  imports Complex_Main
begin

section \<open>Lookup-free quantisation: the data model\<close>

text \<open>
  The development embeds the class \<open>LFQ\<close> of \<^verbatim>\<open>lfquant/__init__.py\<close>.
  Tensor entries are real numbers, and \<open>run\<close> and the estimators compute in exact
  real arithmetic; overflow and NaN are outside the model.  Where the rounding of the
  source's float32 tensors changes a result outright, in the pass-through value and
  in the index accumulation of \<^verbatim>\<open>run\<close>, a second definition evaluates the same
  lines in single precision.  A tensor keeps its shape next to its entries, because
  the source reads \<^verbatim>\<open>x.size(i)\<close> also of tensors that have no entries.
  The compute device is not modelled.
\<close>

datatype LFQMode = VANILLA | X_BATCH | BLOCK

datatype py_error =
  AssertionError | ZeroDivisionError | TypeError | ValueError | RuntimeError | IndexError

record tensor3 =
  size0 :: nat
  size1 :: nat
  size2 :: nat
  entries :: "real list list list"

text \<open>The entries of a tensor fill its shape.\<close>

definition wf_tensor3 :: "tensor3 \<Rightarrow> bool" where
  "wf_tensor3 x \<longleftrightarrow>
     length (entries x) = size0 x \<and>
     (\<forall>r \<in> set (entries x). length r = size1 x \<and> (\<forall>v \<in> set r. length v = size2 x))"

record matrix =
  nrows :: nat
  ncols :: nat
  rows :: "real list list"

text \<open>
  The instance state, field by field as \<^verbatim>\<open>LFQ.__init__\<close> creates it.  The fields
  \<^verbatim>\<open>d\<close> and \<^verbatim>\<open>k\<close> are \<open>lfq_d\<close> and \<open>lfq_k\<close>; the bit-width is a natural number.
  \<^verbatim>\<open>mean_probs\<close> is the attribute that \<^verbatim>\<open>calc_entro_by_batch\<close> creates.
\<close>

record LFQ =
  lfq_d :: nat
  lfq_k :: nat
  mode_delimiter :: "int \<times> int"
  temperature :: real
  eps :: real
  indices :: "int list list option"
  debug :: bool
  alpha :: real
  beta :: real
  commit_loss :: "tensor3 option"
  book_t :: "matrix option"
  half_book :: "matrix option"
  mode :: "LFQMode option"
  subbook_size :: "nat option"
  num_subbooks :: "nat option"
  subbook_ranges :: "(nat \<times> nat) list option"
  x_split :: int
  mean_probs :: "real list list option"

definition LFQ_init ::
  "nat \<Rightarrow> real \<Rightarrow> real \<Rightarrow> real \<Rightarrow> real \<Rightarrow> int \<Rightarrow> bool \<Rightarrow> int \<times> int \<Rightarrow> LFQ" where
  "LFQ_init n a b t e xs dbg md =
     \<lparr> lfq_d = n, lfq_k = 2 ^ n, mode_delimiter = md, temperature = t, eps = e,
       indices = None, debug = dbg, alpha = a, beta = b, commit_loss = None,
       book_t = None, half_book = None, mode = None, subbook_size = None,
       num_subbooks = None, subbook_ranges = None, x_split = xs, mean_probs = None \<rparr>"

section \<open>Mode selection and codebook materialisation\<close>

text \<open>
  Entry \<open>(i, j)\<close> of the codebook: bit \<open>n - 1 - j\<close> of the index \<open>i\<close>
  (\<^verbatim>\<open>bitwise_right_shift\<close> by \<^verbatim>\<open>arange(d - 1, -1, -1)\<close>, then \<^verbatim>\<open>remainder(2)\<close>),
  with \<^verbatim>\<open>book[book == 0] = -1\<close>.
\<close>

definition book_entry :: "nat \<Rightarrow> nat \<Rightarrow> nat \<Rightarrow> int" where
  "book_entry n i j =
     (let b = int ((i div 2 ^ (n - 1 - j)) mod 2) in if b = 0 then - 1 else b)"

definition make_book :: "nat \<Rightarrow> nat \<Rightarrow> int list list" where
  "make_book n kk = map (\<lambda>i. map (\<lambda>j. book_entry n i j) [0..<n]) [0..<kk]"

text \<open>\<^verbatim>\<open>book.float().t()\<close> of a book with \<open>r\<close> rows and \<open>c\<close> columns.\<close>

definition float_t :: "nat \<Rightarrow> nat \<Rightarrow> int list list \<Rightarrow> matrix" where
  "float_t r c book =
     \<lparr> nrows = c, ncols = r,
       rows = map (\<lambda>j. map (\<lambda>i. real_of_int (book ! i ! j)) [0..<r]) [0..<c] \<rparr>"

text \<open>
  \<^verbatim>\<open>init_books\<close>.  In the last branch \<^verbatim>\<open>2 ** (min(21, d) - 1)\<close> is the float \<open>0.5\<close>
  when \<open>d = 0\<close>; then \<^verbatim>\<open>k // subbook_size\<close> is a float and \<^verbatim>\<open>range\<close> raises
  \<^verbatim>\<open>TypeError\<close>.
\<close>

definition init_books :: "LFQ \<Rightarrow> py_error + LFQ" where
  "init_books s =
     (if int (lfq_d s) < fst (mode_delimiter s) then
        Inr (s\<lparr> mode := Some VANILLA,
                book_t := Some (float_t (lfq_k s) (lfq_d s) (make_book (lfq_d s) (lfq_k s))) \<rparr>)
      else if int (lfq_d s) < snd (mode_delimiter s) then
        Inr (s\<lparr> mode := Some X_BATCH,
                book_t := Some (float_t (lfq_k s) (lfq_d s) (make_book (lfq_d s) (lfq_k s))) \<rparr>)
      else if min 21 (lfq_d s) = 0 then Inl TypeError
      else
        (let sb = 2 ^ (min 21 (lfq_d s) - 1);
             ns = lfq_k s div sb
         in Inr (s\<lparr> mode := Some BLOCK,
                     subbook_size := Some sb,
                     num_subbooks := Some ns,
                     subbook_ranges := Some (map (\<lambda>i. (i * sb, (i + 1) * sb)) [0..<ns]) \<rparr>)))"

section \<open>Quantisation and tensor arithmetic\<close>

text \<open>\<^verbatim>\<open>torch.where(x > 0, 1, -1)\<close>, entry by entry.\<close>

definition sign_bit :: "real \<Rightarrow> real" where
  "sign_bit v = (if 0 < v then 1 else - 1)"

definition map_tensor :: "(real \<Rightarrow> real) \<Rightarrow> tensor3 \<Rightarrow> tensor3" where
  "map_tensor f x = x\<lparr> entries := map (map (map f)) (entries x) \<rparr>"

definition quantize :: "tensor3 \<Rightarrow> tensor3" where
  "quantize x = map_tensor sign_bit x"

text \<open>A binary operation on two tensors of one shape, entry by entry.\<close>

definition zip_tensor :: "(real \<Rightarrow> real \<Rightarrow> real) \<Rightarrow> tensor3 \<Rightarrow> tensor3 \<Rightarrow> tensor3" where
  "zip_tensor f x y = x\<lparr> entries := map2 (map2 (map2 f)) (entries x) (entries y) \<rparr>"

text \<open>\<^verbatim>\<open>x + (q - x).detach()\<close>: detaching changes no value.\<close>

definition pass_through :: "tensor3 \<Rightarrow> tensor3 \<Rightarrow> tensor3" where
  "pass_through x q = zip_tensor (\<lambda>a c. a + c) x (zip_tensor (\<lambda>c a. c - a) q x)"

text \<open>\<^verbatim>\<open>tnf.mse_loss(x, q, reduction="none")\<close>.\<close>

definition mse_loss_none :: "tensor3 \<Rightarrow> tensor3 \<Rightarrow> tensor3" where
  "mse_loss_none x q = zip_tensor (\<lambda>a c. (a - c)\<^sup>2) x q"

text \<open>\<^verbatim>\<open>t.mean()\<close> of a tensor: the sum of its entries over their number.\<close>

definition tensor_mean :: "tensor3 \<Rightarrow> real" where
  "tensor_mean t =
     sum_list (concat (concat (entries t))) / real (size0 t * size1 t * size2 t)"

text \<open>\<^verbatim>\<open>v.mean()\<close> of a vector with \<open>n\<close> entries.\<close>

definition vec_mean :: "nat \<Rightarrow> real list \<Rightarrow> real" where
  "vec_mean n v = sum_list v / real n"

section \<open>Entropy estimators\<close>

text \<open>\<^verbatim>\<open>v @ m\<close> for one position vector \<open>v\<close>: one dot product per column of \<open>m\<close>.\<close>

definition vecmat :: "real list \<Rightarrow> matrix \<Rightarrow> real list" where
  "vecmat v m = map (\<lambda>c. \<Sum>i\<leftarrow>[0..<nrows m]. v ! i * rows m ! i ! c) [0..<ncols m]"

definition softmax :: "real list \<Rightarrow> real list" where
  "softmax l = map (\<lambda>a. exp a / sum_list (map exp l)) l"

definition log_softmax :: "real list \<Rightarrow> real list" where
  "log_softmax l = map (\<lambda>a. a - ln (sum_list (map exp l))) l"

text \<open>
  What the estimators compute at one position \<open>v\<close> against a codeword matrix:
  \<^verbatim>\<open>softmax(logits / temperature, -1)\<close> and
  \<^verbatim>\<open>-sum(probs * log_softmax(logits / temperature + eps, -1), -1)\<close>.
\<close>

definition position_probs :: "real \<Rightarrow> matrix \<Rightarrow> real list \<Rightarrow> real list" where
  "position_probs t bt v = softmax (map (\<lambda>a. a / t) (vecmat v bt))"

definition position_entropy :: "real \<Rightarrow> real \<Rightarrow> matrix \<Rightarrow> real list \<Rightarrow> real" where
  "position_entropy t e bt v =
     (let l = map (\<lambda>a. a / t) (vecmat v bt);
          probs = softmax l;
          log_probs = log_softmax (map (\<lambda>a. a + e) l)
      in - sum_list (map2 (*) probs log_probs))"

text \<open>\<^verbatim>\<open>x[:, i * c : (i + 1) * c]\<close>.\<close>

definition x_chunk :: "tensor3 \<Rightarrow> nat \<Rightarrow> nat \<Rightarrow> real list list list" where
  "x_chunk x c i = map (\<lambda>r. take c (drop (i * c) r)) (entries x)"

text \<open>
  In-place addition of a vector to a row of an accumulator; a vector with one entry
  is broadcast along the row.
\<close>

definition add_bcast :: "real list \<Rightarrow> real list \<Rightarrow> real list" where
  "add_bcast row v = (if length v = 1 then map (\<lambda>a. a + v ! 0) row else map2 (+) row v)"

text \<open>\<^verbatim>\<open>-torch.sum(mean_probs * torch.log(mean_probs + eps), -1)\<close>, row by row.\<close>

definition entropy_of_rows :: "real \<Rightarrow> real list list \<Rightarrow> real list" where
  "entropy_of_rows e mp = map (\<lambda>row. - (\<Sum>a\<leftarrow>row. a * ln (a + e))) mp"

subsection \<open>Chunked-batch estimator\<close>

text \<open>
  One iteration of the loop of \<^verbatim>\<open>calc_entro_by_batch\<close>, on the accumulators
  \<^verbatim>\<open>entro_mean\<close> (one entry per sample) and \<^verbatim>\<open>self.mean_probs\<close> (one row per sample).
  \<^verbatim>\<open>probs.mean(dim=(0, 1))\<close> averages over the samples and the positions of the chunk.
\<close>

definition batch_step ::
  "LFQ \<Rightarrow> matrix \<Rightarrow> tensor3 \<Rightarrow> nat \<Rightarrow> real list \<times> real list list \<Rightarrow> real list \<times> real list list" where
  "batch_step s bt x i acc =
     (let xc = x_chunk x (nat (x_split s)) i;
          probs = map (map (position_probs (temperature s) bt)) xc;
          entropy = map (map (position_entropy (temperature s) (eps s) bt)) xc;
          mp = map (\<lambda>c. (\<Sum>p\<leftarrow>concat probs. p ! c) / real (size0 x * nat (x_split s)))
                 [0..<ncols bt]
      in (map2 (\<lambda>a r. a + sum_list r / real (size1 x)) (fst acc) entropy,
          map (\<lambda>row. add_bcast row mp) (snd acc)))"

text \<open>
  The accumulators after the loop: \<^verbatim>\<open>num_splits\<close> iterations from zero.  The book is
  read in the loop only.
\<close>

definition batch_loop :: "LFQ \<Rightarrow> tensor3 \<Rightarrow> nat \<Rightarrow> real list \<times> real list list" where
  "batch_loop s x n =
     fold (\<lambda>i acc. case book_t s of Some bt \<Rightarrow> batch_step s bt x i acc | None \<Rightarrow> acc) [0..<n]
       (replicate (size0 x) 0, replicate (size0 x) (replicate (lfq_k s) 0))"

text \<open>
  \<^verbatim>\<open>calc_entro_by_batch\<close>.  The first line asserts that the chunk size divides the
  sequence length; a chunk size \<open>0\<close> raises in the modulus.  In the loop the matrix
  product raises when the book is absent or its row count is not the last size of
  \<open>x\<close>, and the in-place addition when the book has neither \<open>k\<close> columns nor one.
  With debugging on, \<^verbatim>\<open>self.mean_probs[0]\<close> raises for an empty batch.
\<close>

definition calc_entro_by_batch :: "LFQ \<Rightarrow> tensor3 \<Rightarrow> py_error + ((real \<times> real) \<times> LFQ)" where
  "calc_entro_by_batch s x =
     (if x_split s = 0 then Inl ZeroDivisionError
      else if int (size1 x) mod x_split s \<noteq> 0 then Inl AssertionError
      else
        (let num_splits = int (size1 x) div x_split s in
         if 0 < num_splits \<and> book_t s = None then Inl TypeError
         else if 0 < num_splits \<and>
                 (case book_t s of None \<Rightarrow> False
                  | Some bt \<Rightarrow> nrows bt \<noteq> size2 x \<or> (ncols bt \<noteq> lfq_k s \<and> ncols bt \<noteq> 1))
              then Inl RuntimeError
         else
           (let acc = batch_loop s x (nat num_splits);
                entro_mean = fst acc;
                mp = map (map (\<lambda>a. a / real_of_int num_splits)) (snd acc)
            in if debug s \<and> size0 x = 0 then Inl IndexError
               else if debug s \<and> \<not> \<bar>sum_list (mp ! 0)\<bar> < 11 / 10 then Inl AssertionError
               else
                 Inr ((vec_mean (size0 x) entro_mean,
                       vec_mean (size0 x) (entropy_of_rows (eps s) mp)),
                      s\<lparr> mean_probs := Some mp \<rparr>))))"

subsection \<open>Vanilla estimator\<close>

text \<open>
  \<^verbatim>\<open>calc_entro_vanilla\<close> forwards to \<^verbatim>\<open>book_entropy\<close> of the module
  \<^verbatim>\<open>lfquant/codebook.py\<close>, which is a parameter \<open>be\<close> here: it receives the batch,
  the book and \<open>eps\<close>, and no temperature.
\<close>

type_synonym book_entropy_fn = "tensor3 \<Rightarrow> matrix \<Rightarrow> real \<Rightarrow> py_error + (real \<times> real)"

definition calc_entro_vanilla ::
  "book_entropy_fn \<Rightarrow> LFQ \<Rightarrow> tensor3 \<Rightarrow> py_error + (real \<times> real)" where
  "calc_entro_vanilla be s x =
     (case book_t s of None \<Rightarrow> Inl TypeError | Some bt \<Rightarrow> be x bt (eps s))"

subsection \<open>Block estimator\<close>

text \<open>
  \<^verbatim>\<open>generate_sub_book_t\<close> of the same absent module is the parameter \<open>gen\<close>:
  bit-width, start and end of the range give the codeword matrix of the range.
\<close>

type_synonym sub_book_fn = "nat \<Rightarrow> nat \<Rightarrow> nat \<Rightarrow> matrix"

text \<open>\<^verbatim>\<open>_block\<close>; \<open>rs\<close> is \<^verbatim>\<open>self.subbook_ranges\<close>.\<close>

definition block_step ::
  "LFQ \<Rightarrow> (nat \<times> nat) list \<Rightarrow> tensor3 \<Rightarrow> nat \<Rightarrow> matrix \<Rightarrow> real list \<times> real list list
     \<Rightarrow> real list \<times> real list list" where
  "block_step s rs x i sub_book_t acc =
     (let xc = x_chunk x (nat (x_split s)) i;
          probs = map (map (position_probs (temperature s) sub_book_t)) xc;
          entropy = map (map (position_entropy (temperature s) (eps s) sub_book_t)) xc;
          denorm = real (size1 x * length rs)
      in (map2 (\<lambda>a r. a + sum_list r / denorm) (fst acc) entropy,
          map2 (\<lambda>row pb. add_bcast row
                  (map (\<lambda>c. (\<Sum>p\<leftarrow>pb. p ! c) / denorm) [0..<ncols sub_book_t]))
            (snd acc) probs))"

definition block_loop ::
  "sub_book_fn \<Rightarrow> LFQ \<Rightarrow> (nat \<times> nat) list \<Rightarrow> nat \<Rightarrow> tensor3 \<Rightarrow> nat
     \<Rightarrow> real list \<times> real list list" where
  "block_loop gen s rs sb x n =
     fold (\<lambda>r acc. fold (\<lambda>i. block_step s rs x i (gen (lfq_d s) (fst r) (snd r))) [0..<n] acc)
       rs (replicate (size0 x) 0, replicate (size0 x) (replicate sb 0))"

text \<open>
  \<^verbatim>\<open>calc_entro_block\<close>.  The same assertion comes first.  \<^verbatim>\<open>torch.zeros\<close> raises on an
  absent subbook size, the \<^verbatim>\<open>for\<close> on absent ranges; in \<^verbatim>\<open>_block\<close> the matrix product
  raises when the subbook's row count is not the last size of \<open>x\<close>, and the in-place
  addition when the subbook has neither \<^verbatim>\<open>subbook_size\<close> columns nor one.
\<close>

definition calc_entro_block ::
  "sub_book_fn \<Rightarrow> LFQ \<Rightarrow> tensor3 \<Rightarrow> py_error + (real \<times> real)" where
  "calc_entro_block gen s x =
     (if x_split s = 0 then Inl ZeroDivisionError
      else if int (size1 x) mod x_split s \<noteq> 0 then Inl AssertionError
      else
        (case subbook_size s of None \<Rightarrow> Inl TypeError
         | Some sb \<Rightarrow>
        (case subbook_ranges s of None \<Rightarrow> Inl TypeError
         | Some rs \<Rightarrow>
           (let n = nat (int (size1 x) div x_split s) in
            if 0 < n \<and>
               list_ex (\<lambda>r. nrows (gen (lfq_d s) (fst r) (snd r)) \<noteq> size2 x \<or>
                            (ncols (gen (lfq_d s) (fst r) (snd r)) \<noteq> sb \<and>
                             ncols (gen (lfq_d s) (fst r) (snd r)) \<noteq> 1)) rs
            then Inl RuntimeError
            else
              (let acc = block_loop gen s rs sb x n
               in Inr (vec_mean (size0 x) (fst acc),
                       vec_mean (size0 x) (entropy_of_rows (eps s) (snd acc))))))))"

section \<open>The orchestrator\<close>

text \<open>
  The fifth slot of the result holds \<^verbatim>\<open>None\<close>, the zero scalar \<^verbatim>\<open>FZERO\<close> or a tensor
  of indices; the other loss slots always hold a scalar.
\<close>

datatype index_slot = PyNone | FloatScalar real | LongTensor "int list list"

record run_result =
  res_q :: tensor3
  res_entro_mean :: real
  res_mean_entro :: real
  res_entro_loss :: real
  res_indices :: index_slot
  res_commit_loss :: real

text \<open>\<^verbatim>\<open>.long()\<close> truncates towards zero.\<close>

definition to_long :: "real \<Rightarrow> int" where
  "to_long r = (if 0 \<le> r then \<lfloor>r\<rfloor> else \<lceil>r\<rceil>)"

text \<open>
  The index computation of \<^verbatim>\<open>run\<close>: \<^verbatim>\<open>(q + 1) // 2\<close>, the powers of two from
  \<^verbatim>\<open>2 ** (n - 1)\<close> down to \<^verbatim>\<open>2 ** 0\<close> for the last size \<open>n\<close> of \<open>q\<close>, their
  product and \<^verbatim>\<open>.long()\<close>.
\<close>

definition decode_indices :: "tensor3 \<Rightarrow> int list list" where
  "decode_indices q =
     (let binary_result = map_tensor (\<lambda>v. real_of_int \<lfloor>(v + 1) / 2\<rfloor>) q;
          powers_of_2 = map (\<lambda>j. (2::real) ^ (size2 q - 1 - j)) [0..<size2 q]
      in map (map (\<lambda>v. to_long (\<Sum>j\<leftarrow>[0..<size2 q]. v ! j * powers_of_2 ! j)))
           (entries binary_result))"

text \<open>The dispatch on the mode; the estimators of two modes leave the state as it is.\<close>

definition estimate ::
  "book_entropy_fn \<Rightarrow> sub_book_fn \<Rightarrow> LFQ \<Rightarrow> tensor3 \<Rightarrow> py_error + ((real \<times> real) \<times> LFQ)" where
  "estimate be gen s x =
     (case mode s of
        Some VANILLA \<Rightarrow>
          (case calc_entro_vanilla be s x of Inl e \<Rightarrow> Inl e | Inr r \<Rightarrow> Inr (r, s))
      | Some X_BATCH \<Rightarrow> calc_entro_by_batch s x
      | Some BLOCK \<Rightarrow>
          (case calc_entro_block gen s x of Inl e \<Rightarrow> Inl e | Inr r \<Rightarrow> Inr (r, s))
      | None \<Rightarrow> Inl ValueError)"

text \<open>
  \<^verbatim>\<open>run\<close>: the result and the instance after the call, or the exception raised.
  The debug print has no effect on either.
\<close>

definition run ::
  "book_entropy_fn \<Rightarrow> sub_book_fn \<Rightarrow> LFQ \<Rightarrow> tensor3 \<Rightarrow> bool \<Rightarrow> bool
     \<Rightarrow> py_error + (run_result \<times> LFQ)" where
  "run be gen s x return_indices training =
     (case (if mode s = None then init_books s else Inr s) of
        Inl e \<Rightarrow> Inl e
      | Inr s1 \<Rightarrow>
          (let q = quantize x in
           if \<not> training then
             Inr (\<lparr> res_q = q, res_entro_mean = 0, res_mean_entro = 0, res_entro_loss = 0,
                    res_indices = FloatScalar 0, res_commit_loss = 0 \<rparr>, s1)
           else
             (case estimate be gen s1 x of
                Inl e \<Rightarrow> Inl e
              | Inr (em, s2) \<Rightarrow>
                  (let entro_mean = fst em;
                       mean_entro = snd em;
                       entro_loss = alpha s2 * entro_mean - alpha s2 * mean_entro;
                       q' = pass_through x q;
                       s3 = s2\<lparr> commit_loss := Some (mse_loss_none x q') \<rparr>;
                       s4 = (if return_indices
                             then s3\<lparr> indices := Some (decode_indices q') \<rparr> else s3)
                   in Inr (\<lparr> res_q = q', res_entro_mean = entro_mean,
                             res_mean_entro = mean_entro, res_entro_loss = entro_loss,
                             res_indices =
                               (case indices s4 of None \<Rightarrow> PyNone | Some t \<Rightarrow> LongTensor t),
                             res_commit_loss = tensor_mean (mse_loss_none x q') \<rparr>, s4)))))"

section \<open>The collaborators of the absent module\<close>

text \<open>
  Modelled from the spec: \<^verbatim>\<open>generate_sub_book_t\<close> of \<^verbatim>\<open>lfquant/codebook.py\<close>, which is
  not among the sources.  The spec: the matrix has shape \<open>(d, end - start)\<close>, and
  column \<open>j\<close> is the bit expansion (most significant bit first, \<open>0\<close> as \<open>-1\<close>, \<open>1\<close>
  as \<open>+1\<close>) of the integer \<open>start + j\<close>.
\<close>

definition generate_sub_book_t :: sub_book_fn where
  "generate_sub_book_t n start end' =
     \<lparr> nrows = n, ncols = end' - start,
       rows = map (\<lambda>j. map (\<lambda>c. real_of_int (book_entry n (start + c) j)) [0..<end' - start])
                [0..<n] \<rparr>"

text \<open>
  Modelled from the spec: \<^verbatim>\<open>book_entropy\<close> of \<^verbatim>\<open>lfquant/codebook.py\<close>, which is not
  among the sources.  The spec (Vanilla): the logits are the products of the batch
  with every codeword over the temperature, a softmax gives the distribution of a
  position and a log-softmax, with \<open>eps\<close> added before it, the log-probabilities;
  the entropy of a position is \<open>-\<Sum> p log p\<close>; \<open>entro_mean\<close> averages it over every
  position and sample; \<open>mean_entro\<close> is the entropy of the distribution averaged over
  batch and positions, scored as in the other modes.  The source passes no
  temperature, so the one the absent function uses is the parameter \<open>t\<close>.
\<close>

definition book_entropy :: "real \<Rightarrow> book_entropy_fn" where
  "book_entropy t x bt e =
     (if size2 x \<noteq> nrows bt then Inl RuntimeError
      else
        (let probs = map (map (position_probs t bt)) (entries x);
             entropy = map (map (position_entropy t e bt)) (entries x);
             n = size0 x * size1 x;
             avg = map (\<lambda>c. (\<Sum>p\<leftarrow>concat probs. p ! c) / real n) [0..<ncols bt]
         in Inr (sum_list (concat entropy) / real n,
                 - (\<Sum>a\<leftarrow>avg. a * ln (a + e)))))"

section \<open>An invariant of the block loops\<close>

text \<open>
  Every row of the accumulated probabilities has the subbook's width \<open>w\<close> and the
  sum \<open>t\<close>, and there is one row per sample.
\<close>

definition rows_sum :: "nat \<Rightarrow> nat \<Rightarrow> real \<Rightarrow> real list \<times> real list list \<Rightarrow> bool" where
  "rows_sum b w t acc \<longleftrightarrow>
     length (snd acc) = b \<and> (\<forall>row \<in> set (snd acc). length row = w \<and> sum_list row = t)"

section \<open>Single precision\<close>

text \<open>Rounding to the nearest integer, a tie to the even one.\<close>

definition round_even :: "real \<Rightarrow> int" where
  "round_even y =
     (let f = \<lfloor>y\<rfloor> in
      if y - real_of_int f < 1 / 2 then f
      else if 1 / 2 < y - real_of_int f then f + 1
      else if even f then f else f + 1)"

text \<open>
  Rounding a real to the nearest float32 number: the significand has 24 bits, so the
  unit in the last place of \<open>r\<close> is \<open>2\<close> to the power \<open>\<lfloor>log\<^sub>2 \<bar>r\<bar>\<rfloor> - 23\<close>.
  The exponent is unbounded here (no overflow to infinity, no subnormal numbers).
\<close>

definition fl32 :: "real \<Rightarrow> real" where
  "fl32 r =
     (if r = 0 then 0
      else
        (let u = 2 powr real_of_int (\<lfloor>log 2 \<bar>r\<bar>\<rfloor> - 23)
         in real_of_int (round_even (r / u)) * u))"

text \<open>
  Line 177 at one coordinate, \<^verbatim>\<open>x + (q - x).detach()\<close> on float32 tensors: the
  difference is rounded, then the sum.
\<close>

definition pass_through_f32 :: "real \<Rightarrow> real \<Rightarrow> real" where
  "pass_through_f32 a c = fl32 (a + fl32 (c - a))"

text \<open>
  Lines 181 to 188 at one position \<open>qs\<close> of the reassigned \<open>q\<close>, on float32 tensors:
  \<^verbatim>\<open>(q + 1) // 2\<close>, the powers of two (exact in float32), the dot product
  accumulated from the most significant coordinate with a rounding after every
  operation, and \<^verbatim>\<open>.long()\<close>.
\<close>

definition decode_position_f32 :: "real list \<Rightarrow> int" where
  "decode_position_f32 qs =
     (let binary_result = map (\<lambda>v. real_of_int \<lfloor>fl32 (v + 1) / 2\<rfloor>) qs;
          powers_of_2 = map (\<lambda>j. (2::real) ^ (length qs - 1 - j)) [0..<length qs]
      in to_long (foldl (\<lambda>acc bp. fl32 (acc + fl32 (fst bp * snd bp))) 0
                    (zip binary_result powers_of_2)))"

section \<open>Successive calls on one instance\<close>

text \<open>
  A caller that runs a list of calls (batch, flag for the indices, training flag) on
  one instance, each on the state the previous one left, until one raises.
\<close>

type_synonym call = "tensor3 \<times> bool \<times> bool"

fun run_calls :: "book_entropy_fn \<Rightarrow> sub_book_fn \<Rightarrow> LFQ \<Rightarrow> call list \<Rightarrow> py_error + LFQ" where
  "run_calls be gen s [] = Inr s"
| "run_calls be gen s (c # cs) =
     (case run be gen s (fst c) (fst (snd c)) (snd (snd c)) of
        Inl e \<Rightarrow> Inl e
      | Inr r \<Rightarrow> run_calls be gen (snd r) cs)"

section \<open>Example inputs\<close>

definition ex_x :: tensor3 where
  "ex_x = \<lparr> size0 = 1, size1 = 2, size2 = 2, entries = [[[1 / 2, 0], [- 3, 2]]] \<rparr>"

definition ex_half :: tensor3 where
  "ex_half = \<lparr> size0 = 1, size1 = 2, size2 = 2, entries = [[[1 / 2, 1 / 2], [1 / 2, 1 / 2]]] \<rparr>"

definition ex_odd :: tensor3 where
  "ex_odd = \<lparr> size0 = 1, size1 = 3, size2 = 2, entries = [[[1 / 2, 0], [- 3, 2], [1, 1]]] \<rparr>"

definition ex_vanilla :: LFQ where
  "ex_vanilla = LFQ_init 2 1 1 (1 / 200) (1 / 10 ^ 10) 1 False (19, 26)"

definition ex_batch :: LFQ where
  "ex_batch = LFQ_init 2 1 1 (1 / 200) (1 / 10 ^ 10) 2 False (1, 26)"

definition ex_block :: LFQ where
  "ex_block = LFQ_init 2 1 1 (1 / 200) (1 / 10 ^ 10) 2 False (1, 2)"

text \<open>Instances with debugging on: a negative chunk size, and a chunk size \<open>2\<close>.\<close>

definition ex_debug_batch :: LFQ where
  "ex_debug_batch = LFQ_init 2 1 1 (1 / 200) (1 / 10 ^ 10) (- 2) True (1, 26)"

definition ex_debug_block :: LFQ where
  "ex_debug_block = LFQ_init 2 1 1 (1 / 200) (1 / 10 ^ 10) (- 2) True (1, 2)"

definition ex_debug_pos :: LFQ where
  "ex_debug_pos = LFQ_init 2 1 1 (1 / 200) (1 / 10 ^ 10) 2 True (1, 26)"

section \<open>The quantised code\<close>

lemma map2_same_map: "map2 f xs (map g xs) = map (\<lambda>a. f a (g a)) xs"
  by (induction xs) auto

lemma map2_map_same: "map2 f (map g xs) xs = map (\<lambda>a. f (g a) a) xs"
  by (induction xs) auto

text \<open>In exact arithmetic the pass-through value is the hard code.\<close>

lemma pass_through_quantize: "pass_through x (quantize x) = quantize x"
  by (simp add: pass_through_def quantize_def zip_tensor_def map_tensor_def
      map2_same_map map2_map_same)

lemma run_q: "run be gen s x ri tr = Inr (res, s') \<Longrightarrow> res_q res = quantize x"
  by (auto simp: run_def Let_def pass_through_quantize split: sum.splits if_splits prod.splits)

text \<open>The definitions of the examples.\<close>

lemmas ex_defs = ex_x_def ex_half_def ex_odd_def ex_vanilla_def ex_batch_def ex_block_def
  LFQ_init_def

section \<open>Mode selection\<close>



section \<open>The subbook partition\<close>

lemma ranges_cover:
  fixes sb :: nat
  shows "(\<Union>r \<in> set (map (\<lambda>i. (i * sb, (i + 1) * sb)) [0..<ns]). {fst r..<snd r}) = {0..<ns * sb}"
proof (induction ns)
  case 0
  then show ?case by simp
next
  case (Suc ns)
  have "{0..<ns * sb} \<union> {ns * sb..<ns * sb + sb} = {0..<ns * sb + sb}"
    by auto
  with Suc show ?case by (simp add: Un_commute add.commute)
qed

lemma ranges_disjoint:
  fixes sb :: nat
  assumes "i \<noteq> j"
  shows "{i * sb..<(i + 1) * sb} \<inter> {j * sb..<(j + 1) * sb} = {}"
proof (cases "i < j")
  case True
  then have "(i + 1) * sb \<le> j * sb" by (intro mult_le_mono1) simp
  then show ?thesis by auto
next
  case False
  with assms have "j < i" by simp
  then have "(j + 1) * sb \<le> i * sb" by (intro mult_le_mono1) simp
  then show ?thesis by auto
qed

lemma init_books_block:
  assumes "init_books s = Inr s'" and "mode s' = Some BLOCK"
  shows "0 < lfq_d s \<and>
         s' = s\<lparr> mode := Some BLOCK,
                 subbook_size := Some (2 ^ (min 21 (lfq_d s) - 1)),
                 num_subbooks := Some (lfq_k s div 2 ^ (min 21 (lfq_d s) - 1)),
                 subbook_ranges :=
                   Some (map (\<lambda>i. (i * 2 ^ (min 21 (lfq_d s) - 1),
                                    (i + 1) * 2 ^ (min 21 (lfq_d s) - 1)))
                           [0..<lfq_k s div 2 ^ (min 21 (lfq_d s) - 1)]) \<rparr>"
  using assms by (auto simp: init_books_def Let_def min_def split: if_splits)

text \<open>
  Claim C7.  When \<open>init_books\<close> of a fresh instance of bit-width \<open>n\<close> ends in BLOCK
  mode, the subbook size is \<open>2 ^ (min 21 n - 1)\<close>, the number of subbooks is
  \<open>2 ^ n\<close> divided by it, and it divides \<open>2 ^ n\<close>; range \<open>i\<close> is
  \<open>[i * size, (i + 1) * size)\<close>, so the ranges are contiguous and of equal size,
  they are pairwise disjoint and their union is \<open>[0, 2 ^ n)\<close>.  For \<open>n = 20\<close> there
  are two subbooks of size \<open>2 ^ 19\<close>.
\<close>

theorem subbook_partition:
  assumes "init_books (LFQ_init n a b t e xs dbg md) = Inr s'" and "mode s' = Some BLOCK"
  shows "(let sb = 2 ^ (min 21 n - 1); ns = 2 ^ n div sb;
              rs = map (\<lambda>i. (i * sb, (i + 1) * sb)) [0..<ns]
          in subbook_size s' = Some sb \<and> num_subbooks s' = Some ns \<and>
             subbook_ranges s' = Some rs \<and>
             length rs = ns \<and> ns * sb = 2 ^ n \<and>
             (\<forall>i < ns. rs ! i = (i * sb, (i + 1) * sb)) \<and>
             (\<Union>r \<in> set rs. {fst r..<snd r}) = {0..<2 ^ n} \<and>
             (\<forall>i < ns. \<forall>j < ns. i \<noteq> j \<longrightarrow>
                {fst (rs ! i)..<snd (rs ! i)} \<inter> {fst (rs ! j)..<snd (rs ! j)} = {}) \<and>
             (n = 20 \<longrightarrow> sb = 2 ^ 19 \<and> ns = 2 \<and> rs = [(0, 2 ^ 19), (2 ^ 19, 2 ^ 20)]))"
proof -
  define sb :: nat where "sb = 2 ^ (min 21 n - 1)"
  define ns :: nat where "ns = 2 ^ n div sb"
  define rs where "rs = map (\<lambda>i. (i * sb, (i + 1) * sb)) [0..<ns]"
  have d: "lfq_d (LFQ_init n a b t e xs dbg md) = n" "lfq_k (LFQ_init n a b t e xs dbg md) = 2 ^ n"
    by (simp_all add: LFQ_init_def)
  from init_books_block [OF assms, unfolded d, folded sb_def, folded ns_def, folded rs_def]
  have s': "subbook_size s' = Some sb" "num_subbooks s' = Some ns" "subbook_ranges s' = Some rs"
    by simp_all
  have "min 21 n - 1 \<le> n" by simp
  then have "sb dvd 2 ^ n" unfolding sb_def by (rule le_imp_power_dvd)
  then have div: "ns * sb = 2 ^ n" by (simp add: ns_def)
  have len: "length rs = ns" by (simp add: rs_def)
  have nth: "\<forall>i < ns. rs ! i = (i * sb, (i + 1) * sb)" by (simp add: rs_def)
  have cover: "(\<Union>r \<in> set rs. {fst r..<snd r}) = {0..<2 ^ n}"
    unfolding rs_def ranges_cover div ..
  have disj: "\<forall>i < ns. \<forall>j < ns. i \<noteq> j \<longrightarrow>
      {fst (rs ! i)..<snd (rs ! i)} \<inter> {fst (rs ! j)..<snd (rs ! j)} = {}"
  proof (intro allI impI)
    fix i j assume "i < ns" "j < ns" "i \<noteq> j"
    with nth have "rs ! i = (i * sb, (i + 1) * sb)" "rs ! j = (j * sb, (j + 1) * sb)" by blast+
    with ranges_disjoint [OF \<open>i \<noteq> j\<close>, of sb]
    show "{fst (rs ! i)..<snd (rs ! i)} \<inter> {fst (rs ! j)..<snd (rs ! j)} = {}" by simp
  qed
  have twenty: "n = 20 \<longrightarrow> sb = 2 ^ 19 \<and> ns = 2 \<and> rs = [(0, 2 ^ 19), (2 ^ 19, 2 ^ 20)]"
  proof
    assume n: "n = 20"
    have sb: "sb = 2 ^ 19" unfolding sb_def n by simp
    have ns: "ns = 2" unfolding ns_def sb n by simp
    have u: "[0..<2] = [0, Suc 0]" by (simp add: upt_rec)
    have "rs = [(0, 2 ^ 19), (2 ^ 19, 2 ^ 20)]"
      unfolding rs_def ns u sb by simp
    with sb ns show "sb = 2 ^ 19 \<and> ns = 2 \<and> rs = [(0, 2 ^ 19), (2 ^ 19, 2 ^ 20)]" by blast
  qed
  from s' len div nth cover disj twenty
  have "subbook_size s' = Some sb \<and> num_subbooks s' = Some ns \<and>
             subbook_ranges s' = Some rs \<and>
             length rs = ns \<and> ns * sb = 2 ^ n \<and>
             (\<forall>i < ns. rs ! i = (i * sb, (i + 1) * sb)) \<and>
             (\<Union>r \<in> set rs. {fst r..<snd r}) = {0..<2 ^ n} \<and>
             (\<forall>i < ns. \<forall>j < ns. i \<noteq> j \<longrightarrow>
                {fst (rs ! i)..<snd (rs ! i)} \<inter> {fst (rs ! j)..<snd (rs ! j)} = {}) \<and>
             (n = 20 \<longrightarrow> sb = 2 ^ 19 \<and> ns = 2 \<and> rs = [(0, 2 ^ 19), (2 ^ 19, 2 ^ 20)])"
    by blast
  then show ?thesis
    unfolding Let_def rs_def ns_def sb_def .
qed


theorem subbook_partition_witness:
  "\<exists>s'. init_books (LFQ_init 20 1 1 (1 / 200) 0 16 False (5, 10)) = Inr s' \<and>
     mode s' = Some BLOCK \<and> subbook_size s' = Some (2 ^ 19) \<and> num_subbooks s' = Some 2 \<and>
     subbook_ranges s' = Some [(0, 2 ^ 19), (2 ^ 19, 2 ^ 20)]"
proof -
  have "\<exists>s'. init_books (LFQ_init 20 1 1 (1 / 200) 0 16 False (5, 10)) = Inr s' \<and>
     mode s' = Some BLOCK"
    by (simp add: init_books_def LFQ_init_def Let_def)
  then obtain s' where i: "init_books (LFQ_init 20 1 1 (1 / 200) 0 16 False (5, 10)) = Inr s'"
    and m: "mode s' = Some BLOCK" by blast
  from subbook_partition [OF i m]
  have "subbook_size s' = Some (2 ^ 19) \<and> num_subbooks s' = Some 2 \<and>
     subbook_ranges s' = Some [(0, 2 ^ 19), (2 ^ 19, 2 ^ 20)]"
    unfolding Let_def by metis
  with i m show ?thesis by blast
qed

section \<open>The inference path\<close>

text \<open>
  Counterexample to claim C1 as stated: without training, the fifth slot of the
  result is not absent; it holds the zero scalar, like the four loss slots.
\<close>

theorem run_inference_indices_slot_counterexample:
  "run (book_entropy 1) generate_sub_book_t ex_vanilla ex_x True False =
     Inr (\<lparr> res_q = quantize ex_x, res_entro_mean = 0, res_mean_entro = 0, res_entro_loss = 0,
            res_indices = FloatScalar 0, res_commit_loss = 0 \<rparr>,
          ex_vanilla\<lparr> mode := Some VANILLA,
                      book_t := Some (float_t 4 2 (make_book 2 4)) \<rparr>) \<and>
   FloatScalar 0 \<noteq> PyNone"
  by (simp add: run_def ex_vanilla_def LFQ_init_def init_books_def)

text \<open>
  Claim C1, amended.  Whenever the lazy initialisation does not raise, a call without
  training returns the hard quantised code and the zero scalar in all five other
  slots, the slot of the indices included, whatever the flag for the indices; no
  estimator runs (the collaborators are arbitrary, and the stored probabilities, indices
  and commit loss are those of before the call).
\<close>

theorem run_inference_fast_path:
  assumes "(if mode s = None then init_books s else Inr s) = Inr s1"
  shows "run be gen s x ri False =
           Inr (\<lparr> res_q = quantize x, res_entro_mean = 0, res_mean_entro = 0,
                  res_entro_loss = 0, res_indices = FloatScalar 0, res_commit_loss = 0 \<rparr>, s1) \<and>
         mean_probs s1 = mean_probs s \<and> indices s1 = indices s \<and>
         commit_loss s1 = commit_loss s"
  using assms
  by (auto simp: run_def init_books_def Let_def split: if_splits)

theorem run_inference_fast_path_witness:
  "run (\<lambda>x bt e. Inl RuntimeError) (\<lambda>n a b. \<lparr> nrows = 0, ncols = 0, rows = [] \<rparr>)
      ex_block ex_odd True False =
     Inr (\<lparr> res_q = quantize ex_odd, res_entro_mean = 0, res_mean_entro = 0,
            res_entro_loss = 0, res_indices = FloatScalar 0, res_commit_loss = 0 \<rparr>,
          ex_block\<lparr> mode := Some BLOCK, subbook_size := Some 2, num_subbooks := Some 2,
                    subbook_ranges := Some [(0, 2), (2, 4)] \<rparr>)"
proof -
  have "(if mode ex_block = None then init_books ex_block else Inr ex_block) =
      Inr (ex_block\<lparr> mode := Some BLOCK, subbook_size := Some 2, num_subbooks := Some 2,
                    subbook_ranges := Some [(0, 2), (2, 4)] \<rparr>)"
    by (simp add: ex_block_def LFQ_init_def init_books_def Let_def upt_rec)
  from run_inference_fast_path [OF this] show ?thesis by blast
qed

section \<open>The chunk-size precondition\<close>

lemma init_books_x_split: "init_books s = Inr s1 \<Longrightarrow> x_split s1 = x_split s"
  by (auto simp: init_books_def Let_def split: if_splits)

text \<open>
  Counterexample to claim C9 as stated: a sequence length \<open>3\<close> with chunk size \<open>2\<close>
  is detected in both modes; the call raises \<open>AssertionError\<close>.
\<close>

theorem chunk_precondition_counterexample:
  "run (book_entropy 1) generate_sub_book_t ex_batch ex_odd False True = Inl AssertionError \<and>
   run (book_entropy 1) generate_sub_book_t ex_block ex_odd False True = Inl AssertionError"
  by (simp add: run_def ex_defs init_books_def estimate_def calc_entro_by_batch_def
     calc_entro_block_def Let_def)

text \<open>
  Claim C9, amended.  In X_BATCH and BLOCK mode both estimators assert first that the
  chunk size divides the sequence length: for a nonzero chunk size that does not
  divide it, the estimator, and with it a training call of \<open>run\<close>, raises
  \<open>AssertionError\<close> before anything is computed.
\<close>

theorem chunk_precondition_asserted:
  assumes "(if mode s = None then init_books s else Inr s) = Inr s1"
    and "mode s1 = Some X_BATCH \<or> mode s1 = Some BLOCK"
    and "x_split s \<noteq> 0"
    and "int (size1 x) mod x_split s \<noteq> 0"
  shows "calc_entro_by_batch s1 x = Inl AssertionError \<and>
         calc_entro_block gen s1 x = Inl AssertionError \<and>
         run be gen s x ri True = Inl AssertionError"
proof -
  have xs: "x_split s1 = x_split s"
    using assms(1) by (auto dest: init_books_x_split split: if_splits)
  have b: "calc_entro_by_batch s1 x = Inl AssertionError"
    using assms(3,4) by (simp add: calc_entro_by_batch_def xs)
  have k: "calc_entro_block gen s1 x = Inl AssertionError"
    using assms(3,4) by (simp add: calc_entro_block_def xs)
  have "estimate be gen s1 x = Inl AssertionError"
    using assms(2) b k by (auto simp: estimate_def)
  then have "run be gen s x ri True = Inl AssertionError"
    using assms(1) by (simp add: run_def)
  with b k show ?thesis by blast
qed

theorem chunk_precondition_asserted_witness:
  "calc_entro_by_batch (ex_batch\<lparr> mode := Some X_BATCH,
        book_t := Some (float_t 4 2 (make_book 2 4)) \<rparr>) ex_odd = Inl AssertionError \<and>
   run (book_entropy 1) generate_sub_book_t ex_batch ex_odd True True = Inl AssertionError"
proof -
  have i: "(if mode ex_batch = None then init_books ex_batch else Inr ex_batch) =
      Inr (ex_batch\<lparr> mode := Some X_BATCH, book_t := Some (float_t 4 2 (make_book 2 4)) \<rparr>)"
    by (simp add: ex_batch_def LFQ_init_def init_books_def)
  have m: "mode (ex_batch\<lparr> mode := Some X_BATCH, book_t := Some (float_t 4 2 (make_book 2 4)) \<rparr>)
      = Some X_BATCH \<or>
     mode (ex_batch\<lparr> mode := Some X_BATCH, book_t := Some (float_t 4 2 (make_book 2 4)) \<rparr>)
      = Some BLOCK" by simp
  have z: "x_split ex_batch \<noteq> 0" by (simp add: ex_batch_def LFQ_init_def)
  have o: "int (size1 ex_odd) mod x_split ex_batch \<noteq> 0"
    by (simp add: ex_batch_def LFQ_init_def ex_odd_def)
  from chunk_precondition_asserted [OF i m z o] show ?thesis by blast
qed

section \<open>The commit loss\<close>

lemma mse_pass_through:
  "mse_loss_none x (pass_through x (quantize x)) =
     x\<lparr> entries := map (map (map (\<lambda>v. (v - sign_bit v)\<^sup>2))) (entries x) \<rparr>"
  by (simp add: pass_through_quantize)
     (simp add: mse_loss_none_def quantize_def zip_tensor_def map_tensor_def map2_same_map)

lemma run_commit:
  assumes "run be gen s x ri True = Inr (res, s')"
  shows "res_commit_loss res = tensor_mean (mse_loss_none x (pass_through x (quantize x)))"
  using assms
  by (auto simp: run_def Let_def split: sum.splits if_splits prod.splits)

lemma length_concat_const:
  assumes "\<forall>r \<in> set xs. length r = n"
  shows "length (concat xs) = length xs * n"
  using assms by (induction xs) auto

lemma wf_tensor3_numel:
  assumes "wf_tensor3 x"
  shows "length (concat (concat (entries x))) = size0 x * size1 x * size2 x"
proof -
  from assms have l0: "length (entries x) = size0 x"
    and l1: "\<forall>r \<in> set (entries x). length r = size1 x"
    and l2: "\<forall>v \<in> set (concat (entries x)). length v = size2 x"
    by (auto simp: wf_tensor3_def)
  from l1 have "length (concat (entries x)) = length (entries x) * size1 x"
    by (rule length_concat_const)
  moreover from l2 have "length (concat (concat (entries x))) = length (concat (entries x)) * size2 x"
    by (rule length_concat_const)
  ultimately show ?thesis using l0 by simp
qed

lemma sum_list_const:
  fixes h :: "real \<Rightarrow> real"
  assumes "\<forall>c \<in> set l. c = a"
  shows "sum_list (map h l) = real (length l) * h a"
  using assms by (induction l) (auto simp: algebra_simps)

text \<open>
  Claim C6.  A training call returns as commit loss the mean, over every coordinate of
  every position, of the squared difference between the input and its hard quantised
  code.  For a well-formed, non-empty input whose coordinates are all \<open>1/2\<close> the code
  is all \<open>+1\<close> and the commit loss is \<open>1/4\<close>.
\<close>

theorem run_commit_loss:
  assumes "run be gen s x ri True = Inr (res, s')"
  shows "res_commit_loss res =
           (\<Sum>v\<leftarrow>concat (concat (entries x)). (v - sign_bit v)\<^sup>2) /
             real (size0 x * size1 x * size2 x) \<and>
         (wf_tensor3 x \<and> 0 < size0 x * size1 x * size2 x \<and>
          (\<forall>r \<in> set (entries x). \<forall>v \<in> set r. \<forall>c \<in> set v. c = 1 / 2) \<longrightarrow>
            (\<forall>r \<in> set (entries (res_q res)). \<forall>v \<in> set r. \<forall>c \<in> set v. c = 1) \<and>
            res_commit_loss res = 1 / 4)"
proof -
  have c: "res_commit_loss res =
      (\<Sum>v\<leftarrow>concat (concat (entries x)). (v - sign_bit v)\<^sup>2) /
        real (size0 x * size1 x * size2 x)"
    unfolding run_commit [OF assms] mse_pass_through
    by (simp add: tensor_mean_def map_concat)
  have q: "res_q res = quantize x" using assms by (rule run_q)
  have "(\<forall>r \<in> set (entries (res_q res)). \<forall>v \<in> set r. \<forall>c \<in> set v. c = 1) \<and>
        res_commit_loss res = 1 / 4"
    if wf: "wf_tensor3 x" and pos: "0 < size0 x * size1 x * size2 x"
      and half: "\<forall>r \<in> set (entries x). \<forall>v \<in> set r. \<forall>c \<in> set v. c = 1 / 2"
  proof
    show "\<forall>r \<in> set (entries (res_q res)). \<forall>v \<in> set r. \<forall>c \<in> set v. c = 1"
    proof -
      have "sign_bit c = 1" if "r \<in> set (entries x)" "v \<in> set r" "c \<in> set v" for r v c
      proof -
        from half that have "c = 1 / 2" by blast
        then show ?thesis by (simp add: sign_bit_def)
      qed
      then show ?thesis by (auto simp: q quantize_def map_tensor_def)
    qed
    from half have "\<forall>c \<in> set (concat (concat (entries x))). c = 1 / 2" by auto
    then have "(\<Sum>v\<leftarrow>concat (concat (entries x)). (v - sign_bit v)\<^sup>2) =
        real (length (concat (concat (entries x)))) * (1 / 2 - sign_bit (1 / 2))\<^sup>2"
      by (rule sum_list_const)
    also have "\<dots> = real (size0 x * size1 x * size2 x) * (1 / 4)"
      by (simp add: wf_tensor3_numel [OF wf] sign_bit_def power2_eq_square)
    finally show "res_commit_loss res = 1 / 4"
      using pos unfolding c by simp
  qed
  with c show ?thesis by blast
qed

theorem run_commit_loss_witness:
  "\<exists>res s'. run (book_entropy 1) generate_sub_book_t ex_vanilla ex_half False True = Inr (res, s') \<and>
     res_commit_loss res = 1 / 4"
proof -
  have "\<exists>r. run (book_entropy 1) generate_sub_book_t ex_vanilla ex_half False True = Inr r"
    by (simp add: run_def ex_defs init_books_def estimate_def calc_entro_vanilla_def
      book_entropy_def float_t_def Let_def)
  then obtain res s'
    where r: "run (book_entropy 1) generate_sub_book_t ex_vanilla ex_half False True = Inr (res, s')"
    by force
  have h: "wf_tensor3 ex_half \<and> 0 < size0 ex_half * size1 ex_half * size2 ex_half \<and>
      (\<forall>r \<in> set (entries ex_half). \<forall>v \<in> set r. \<forall>c \<in> set v. c = 1 / 2)"
    by (simp add: ex_half_def wf_tensor3_def)
  from run_commit_loss [OF r] h have "res_commit_loss res = 1 / 4" by blast
  with r show ?thesis by blast
qed

section \<open>Persistence of the indices\<close>

lemma init_books_indices: "init_books s = Inr s1 \<Longrightarrow> indices s1 = indices s"
  by (auto simp: init_books_def Let_def split: if_splits)

lemma estimate_indices: "estimate be gen s x = Inr (r, s') \<Longrightarrow> indices s' = indices s"
  by (auto simp: estimate_def calc_entro_by_batch_def Let_def
      split: option.splits LFQMode.splits sum.splits if_splits)

lemma run_indices:
  assumes "run be gen s x ri tr = Inr (res, s')"
  shows "indices s' = (if ri \<and> tr then Some (decode_indices (quantize x)) else indices s) \<and>
         (tr \<longrightarrow> res_indices res = (case indices s' of None \<Rightarrow> PyNone | Some t \<Rightarrow> LongTensor t))"
proof -
  from assms obtain s1 where i: "(if mode s = None then init_books s else Inr s) = Inr s1"
    by (auto simp: run_def split: sum.splits)
  then have i1: "indices s1 = indices s"
    by (auto dest: init_books_indices split: if_splits)
  show ?thesis
  proof (cases tr)
    case False
    with assms i i1 show ?thesis by (auto simp: run_def Let_def)
  next
    case True
    with assms i obtain em s2 where e: "estimate be gen s1 x = Inr (em, s2)"
      by (auto simp: run_def Let_def split: sum.splits)
    from estimate_indices [OF e] i1 have "indices s2 = indices s" by simp
    with assms i e True show ?thesis
      by (auto simp: run_def Let_def pass_through_quantize)
  qed
qed

lemma run_calls_no_request:
  assumes "run_calls be gen s cs = Inr s'"
    and "\<forall>c \<in> set cs. \<not> (fst (snd c) \<and> snd (snd c))"
  shows "indices s' = indices s"
  using assms
proof (induction cs arbitrary: s)
  case Nil
  then show ?case by simp
next
  case (Cons c cs)
  from Cons.prems(1) obtain res s1
    where r: "run be gen s (fst c) (fst (snd c)) (snd (snd c)) = Inr (res, s1)"
      and rest: "run_calls be gen s1 cs = Inr s'"
    by (auto split: sum.splits)
  from run_indices [OF r] Cons.prems(2) have "indices s1 = indices s" by simp
  moreover from Cons.IH [OF rest] Cons.prems(2) have "indices s' = indices s1" by simp
  ultimately show ?case by simp
qed

lemma run_calls_append:
  assumes "run_calls be gen s (pre @ c # post) = Inr s'"
  shows "\<exists>s1 res s2. run_calls be gen s pre = Inr s1 \<and>
           run be gen s1 (fst c) (fst (snd c)) (snd (snd c)) = Inr (res, s2) \<and>
           run_calls be gen s2 post = Inr s'"
  using assms
proof (induction pre arbitrary: s)
  case Nil
  then show ?case by (auto split: sum.splits)
next
  case (Cons p pre)
  from Cons.prems obtain res s1
    where r: "run be gen s (fst p) (fst (snd p)) (snd (snd p)) = Inr (res, s1)"
      and rest: "run_calls be gen s1 (pre @ c # post) = Inr s'"
    by (auto split: sum.splits)
  from Cons.IH [OF rest] r show ?case by auto
qed

text \<open>
  Claim C10.  The stored indices are never cleared.  After any calls on a fresh
  instance, a training call that does not ask for indices returns in the slot of the
  indices what the instance stores, and leaves it stored: \<open>None\<close> when no earlier
  training call asked for indices, and otherwise the indices that the most recent
  such call decoded from its own batch.
\<close>

theorem run_stale_indices:
  assumes "run_calls be gen (LFQ_init n a b t e xs dbg md) cs = Inr s"
    and "run be gen s x False True = Inr (res, s')"
  shows "res_indices res = (case indices s of None \<Rightarrow> PyNone | Some i \<Rightarrow> LongTensor i) \<and>
         indices s' = indices s \<and>
         ((\<forall>c \<in> set cs. \<not> (fst (snd c) \<and> snd (snd c))) \<longrightarrow> res_indices res = PyNone) \<and>
         (\<forall>pre y post. cs = pre @ (y, True, True) # post \<and>
            (\<forall>c \<in> set post. \<not> (fst (snd c) \<and> snd (snd c))) \<longrightarrow>
            res_indices res = LongTensor (decode_indices (quantize y)))"
proof -
  from run_indices [OF assms(2)]
  have keep: "indices s' = indices s"
    and slot: "res_indices res = (case indices s of None \<Rightarrow> PyNone | Some i \<Rightarrow> LongTensor i)"
    by simp_all
  have none: "res_indices res = PyNone" if "\<forall>c \<in> set cs. \<not> (fst (snd c) \<and> snd (snd c))"
  proof -
    from run_calls_no_request [OF assms(1) that] have "indices s = None"
      by (simp add: LFQ_init_def)
    with slot show ?thesis by simp
  qed
  have stale: "res_indices res = LongTensor (decode_indices (quantize y))"
    if cs: "cs = pre @ (y, True, True) # post"
      and post: "\<forall>c \<in> set post. \<not> (fst (snd c) \<and> snd (snd c))" for pre y post
  proof -
    from run_calls_append [OF assms(1) [unfolded cs]] obtain s1 r s2
      where "run be gen s1 y True True = Inr (r, s2)" and "run_calls be gen s2 post = Inr s"
      by auto
    with run_indices [of be gen s1 y True True r s2] run_calls_no_request [OF _ post]
    have "indices s = Some (decode_indices (quantize y))" by simp
    with slot show ?thesis by simp
  qed
  from keep slot none stale show ?thesis by blast
qed


lemma decode_ex_x: "decode_indices (quantize ex_x) = [[2, 1]]"
  by (simp add: decode_indices_def quantize_def map_tensor_def sign_bit_def to_long_def
      ex_x_def upt_rec)

lemma run_calls_ex:
  "\<exists>s. run_calls (book_entropy 1) generate_sub_book_t ex_vanilla
      ([(ex_x, True, True), (ex_half, False, True), (ex_x, True, False)] @
       (ex_half, False, True) # []) = Inr s"
  by (simp add: run_def ex_defs init_books_def estimate_def calc_entro_vanilla_def
      book_entropy_def float_t_def Let_def)

theorem run_stale_indices_witness:
  "\<exists>s res s'.
     run_calls (book_entropy 1) generate_sub_book_t ex_vanilla
       [(ex_x, True, True), (ex_half, False, True), (ex_x, True, False)] = Inr s \<and>
     run (book_entropy 1) generate_sub_book_t s ex_half False True = Inr (res, s') \<and>
     res_indices res = LongTensor [[2, 1]]"
proof -
  from run_calls_ex obtain s0 where
    "run_calls (book_entropy 1) generate_sub_book_t ex_vanilla
      ([(ex_x, True, True), (ex_half, False, True), (ex_x, True, False)] @
       (ex_half, False, True) # []) = Inr s0" by blast
  from run_calls_append [OF this] obtain s res s'
    where c: "run_calls (book_entropy 1) generate_sub_book_t ex_vanilla
        [(ex_x, True, True), (ex_half, False, True), (ex_x, True, False)] = Inr s"
      and r: "run (book_entropy 1) generate_sub_book_t s ex_half False True = Inr (res, s')"
    by auto
  from run_stale_indices [OF c [unfolded ex_vanilla_def] r]
  have "\<forall>pre y post.
      [(ex_x, True, True), (ex_half, False, True), (ex_x, True, False)] =
        pre @ (y, True, True) # post \<and>
      (\<forall>c \<in> set post. \<not> (fst (snd c) \<and> snd (snd c))) \<longrightarrow>
      res_indices res = LongTensor (decode_indices (quantize y))"
    by blast
  from this [rule_format, of "[]" ex_x "[(ex_half, False, True), (ex_x, True, False)]"]
  have "res_indices res = LongTensor [[2, 1]]"
    by (simp add: decode_ex_x)
  with c r show ?thesis by blast
qed

section \<open>The pass-through value in single precision\<close>

text \<open>Rounding a number whose binary exponent is known.\<close>

lemma fl32_exponent:
  assumes "r \<noteq> 0" and "2 powr real_of_int e \<le> \<bar>r\<bar>" and "\<bar>r\<bar> < 2 powr (real_of_int e + 1)"
  shows "fl32 r = real_of_int (round_even (r / 2 powr real_of_int (e - 23))) *
                    2 powr real_of_int (e - 23)"
proof -
  from assms(1) have "0 < \<bar>r\<bar>" by simp
  then have "\<lfloor>log 2 \<bar>r\<bar>\<rfloor> = e"
    using assms(2,3) by (simp add: floor_log_eq_powr_iff)
  with assms(1) show ?thesis by (simp add: fl32_def Let_def)
qed

lemma fl32_1e8: "fl32 100000000 = 100000000"
  using fl32_exponent [of 100000000 26] by (simp add: round_even_def)

lemma fl32_1e8_neg: "fl32 (- 100000000) = - 100000000"
  using fl32_exponent [of "- 100000000" 26] by (simp add: round_even_def)

lemma fl32_1e8_minus: "fl32 (- 99999999) = - 100000000"
  using fl32_exponent [of "- 99999999" 26] by (simp add: round_even_def)

lemma fl32_1e8_plus: "fl32 99999999 = 100000000"
  using fl32_exponent [of 99999999 26] by (simp add: round_even_def)

lemma fl32_one: "fl32 1 = 1"
  using fl32_exponent [of 1 0] by (simp add: round_even_def powr_neg_numeral)

lemma fl32_zero: "fl32 0 = 0"
  by (simp add: fl32_def)

text \<open>
  Claim C2 fails on the training path.  The claim is that every coordinate of the code
  that \<open>run\<close> produces is \<open>-1\<close> or \<open>+1\<close>, and \<open>+1\<close> exactly for a positive input.
  At the float32 input \<open>10 ^ 8\<close> the hard code of line 157 is \<open>+1\<close>, but the value
  that a training call returns, \<open>x + (q - x)\<close> of line 177, is \<open>0\<close>: the difference
  \<open>1 - 10 ^ 8\<close> rounds to \<open>- 10 ^ 8\<close>.
\<close>

theorem pass_through_f32_absorbs_hard_code:
  "fl32 (10 ^ 8) = 10 ^ 8 \<and>
   entries (quantize \<lparr> size0 = 1, size1 = 1, size2 = 1, entries = [[[10 ^ 8]]] \<rparr>) = [[[1]]] \<and>
   pass_through_f32 (10 ^ 8) (sign_bit (10 ^ 8)) = 0 \<and>
   pass_through_f32 (10 ^ 8) (sign_bit (10 ^ 8)) \<notin> {- 1, 1}"
  by (simp add: pass_through_f32_def sign_bit_def quantize_def map_tensor_def
      fl32_1e8 fl32_1e8_minus fl32_zero)

section \<open>The indices in single precision\<close>

lemma fl32_2_25: "fl32 33554431 = 33554432"
  using fl32_exponent [of 33554431 24] by (simp add: round_even_def)

text \<open>
  Claim C4 fails for the same reason, and for a second one.  The indices are decoded
  from the reassigned \<open>q\<close> of line 177, not from the hard code: at the float32
  position \<open>[10 ^ 8, - 10 ^ 8]\<close> the hard code is \<open>[1, -1]\<close> with index \<open>2\<close>, the
  pass-through value is \<open>[0, 0]\<close> and the index decoded from it is \<open>0\<close>, whose
  codebook row is \<open>[-1, -1]\<close>.  And the float32 accumulator cannot hold the index
  \<open>2 ^ 25 - 1\<close> of the all-positive pattern of width \<open>25\<close>: it rounds to \<open>2 ^ 25\<close>.
\<close>

theorem decode_f32_loses_hard_code:
  "fl32 (10 ^ 8) = 10 ^ 8 \<and> fl32 (- (10 ^ 8)) = - (10 ^ 8) \<and>
   map sign_bit [10 ^ 8, - (10 ^ 8)] = [1, - 1] \<and>
   map2 pass_through_f32 [10 ^ 8, - (10 ^ 8)] (map sign_bit [10 ^ 8, - (10 ^ 8)]) = [0, 0] \<and>
   decode_position_f32
     (map2 pass_through_f32 [10 ^ 8, - (10 ^ 8)] (map sign_bit [10 ^ 8, - (10 ^ 8)])) = 0 \<and>
   decode_indices
     (quantize \<lparr> size0 = 1, size1 = 1, size2 = 2, entries = [[[10 ^ 8, - (10 ^ 8)]]] \<rparr>) = [[2]] \<and>
   map (\<lambda>j. real_of_int (book_entry 2 0 j)) [0..<2] = [- 1, - 1] \<and>
   fl32 (2 ^ 25 - 1) = 2 ^ 25"
proof -
  have m: "fl32 (- (10 ^ 8)) = - (10 ^ 8)" by (simp add: fl32_1e8_neg)
  have f: "fl32 (10 ^ 8) = 10 ^ 8" by (simp add: fl32_1e8)
  have r: "fl32 (2 ^ 25 - 1) = 2 ^ 25" by (simp add: fl32_2_25)
  have p: "map2 pass_through_f32 [10 ^ 8, - (10 ^ 8)] (map sign_bit [10 ^ 8, - (10 ^ 8)]) = [0, 0]"
    by (simp add: pass_through_f32_def sign_bit_def fl32_1e8_minus fl32_1e8_plus fl32_zero)
  have d: "decode_position_f32 [0, 0] = 0"
    by (simp add: decode_position_f32_def fl32_one fl32_zero to_long_def upt_rec)
  have h: "decode_indices
     (quantize \<lparr> size0 = 1, size1 = 1, size2 = 2, entries = [[[10 ^ 8, - (10 ^ 8)]]] \<rparr>) = [[2]]"
    by (simp add: decode_indices_def quantize_def map_tensor_def sign_bit_def to_long_def upt_rec)
  have b: "map (\<lambda>j. real_of_int (book_entry 2 0 j)) [0..<2] = [- 1, - 1]"
    by (simp add: book_entry_def upt_rec)
  have s: "map sign_bit [10 ^ 8, - (10 ^ 8)] = [1, - 1]" by (simp add: sign_bit_def)
  from f m s p d h b r show ?thesis by (simp only: simp_thms)
qed

section \<open>The accumulated probabilities\<close>

subsection \<open>Sums over lists of vectors\<close>

lemma map2_map_map: "map2 f (map g xs) (map h xs) = map (\<lambda>a. f (g a) (h a)) xs"
  by (induction xs) auto

lemma sum_list_nth_upt:
  fixes p :: "real list"
  assumes "length p = k"
  shows "(\<Sum>c\<leftarrow>[0..<k]. p ! c) = sum_list p"
proof -
  have "map (\<lambda>c. p ! c) [0..<length p] = p" by (rule map_nth)
  with assms show ?thesis by simp
qed

lemma sum_list_columns:
  fixes ps :: "real list list"
  assumes "\<forall>p \<in> set ps. length p = k"
  shows "(\<Sum>c\<leftarrow>[0..<k]. \<Sum>p\<leftarrow>ps. p ! c) = (\<Sum>p\<leftarrow>ps. sum_list p)"
  using assms
proof (induction ps)
  case Nil
  then show ?case by simp
next
  case (Cons q ps)
  then have "length q = k" and "\<forall>p \<in> set ps. length p = k" by simp_all
  with Cons.IH show ?case
    by (simp add: sum_list_addf sum_list_nth_upt)
qed

lemma sum_list_map_concat:
  fixes f :: "'a \<Rightarrow> real"
  shows "(\<Sum>v\<leftarrow>concat xss. f v) = (\<Sum>xs\<leftarrow>xss. \<Sum>v\<leftarrow>xs. f v)"
  by (induction xss) auto

lemma sum_list_divide:
  fixes f :: "'a \<Rightarrow> real"
  shows "(\<Sum>v\<leftarrow>xs. f v / a) = (\<Sum>v\<leftarrow>xs. f v) / a"
  by (induction xs) (auto simp: add_divide_distrib)

lemma sum_list_const_one:
  fixes f :: "'a \<Rightarrow> real"
  assumes "\<forall>v \<in> set xs. f v = a"
  shows "(\<Sum>v\<leftarrow>xs. f v) = real (length xs) * a"
  using assms by (induction xs) (auto simp: algebra_simps)

subsection \<open>The softmax is a distribution\<close>

lemma sum_list_exp_pos:
  fixes l :: "real list"
  assumes "l \<noteq> []"
  shows "0 < sum_list (map exp l)"
  using assms
proof (induction l)
  case Nil
  then show ?case by simp
next
  case (Cons a l)
  have "0 \<le> sum_list (map exp l)" by (rule sum_list_nonneg) auto
  moreover have "0 < exp a" by simp
  ultimately show ?case by (simp add: add_pos_nonneg)
qed

lemma sum_list_softmax:
  assumes "l \<noteq> []"
  shows "sum_list (softmax l) = 1"
proof -
  have "sum_list (softmax l) = (\<Sum>a\<leftarrow>l. exp a / sum_list (map exp l))"
    by (simp add: softmax_def)
  also have "\<dots> = (\<Sum>a\<leftarrow>l. exp a) / sum_list (map exp l)"
    by (rule sum_list_divide)
  also have "\<dots> = 1" using sum_list_exp_pos [OF assms] by simp
  finally show ?thesis .
qed

lemma length_position_probs: "length (position_probs t bt v) = ncols bt"
  by (simp add: position_probs_def softmax_def vecmat_def)

lemma sum_list_position_probs:
  assumes "0 < ncols bt"
  shows "sum_list (position_probs t bt v) = 1"
proof -
  have "map (\<lambda>a. a / t) (vecmat v bt) \<noteq> []"
    using assms by (simp add: vecmat_def)
  then show ?thesis unfolding position_probs_def by (rule sum_list_softmax)
qed

lemma add_bcast_same_length:
  assumes "length row = length v"
  shows "add_bcast row v = map2 (+) row v"
proof (cases "length v = 1")
  case True
  with assms obtain a b where "row = [a]" "v = [b]"
    by (metis One_nat_def length_0_conv length_Suc_conv)
  then show ?thesis by (simp add: add_bcast_def)
next
  case False
  then show ?thesis by (simp add: add_bcast_def)
qed

lemma add_bcast_upt:
  "add_bcast (map f [0..<k]) (map g [0..<k]) = map (\<lambda>c. f c + g c) [0..<k]"
  by (simp add: add_bcast_same_length map2_map_map)

subsection \<open>The chunked-batch loop in closed form\<close>

lemma sum_list_take_Suc_chunk:
  fixes f :: "'a \<Rightarrow> real"
  shows "(\<Sum>v\<leftarrow>take (Suc m * c) r. f v) =
         (\<Sum>v\<leftarrow>take (m * c) r. f v) + (\<Sum>v\<leftarrow>take c (drop (m * c) r). f v)"
proof -
  have e: "Suc m * c = m * c + c" by simp
  have "take (Suc m * c) r = take (m * c) r @ take c (drop (m * c) r)"
    unfolding e by (rule take_add)
  then show ?thesis by simp
qed

lemma batch_loop_closed:
  assumes bt: "book_t s = Some bt" and k: "ncols bt = lfq_k s"
    and len: "length (entries x) = size0 x"
  shows "batch_loop s x m =
     (map (\<lambda>r. (\<Sum>v\<leftarrow>take (m * nat (x_split s)) r.
                   position_entropy (temperature s) (eps s) bt v) / real (size1 x)) (entries x),
      replicate (size0 x)
        (map (\<lambda>c. (\<Sum>r\<leftarrow>entries x. \<Sum>v\<leftarrow>take (m * nat (x_split s)) r.
                      position_probs (temperature s) bt v ! c) /
                   real (size0 x * nat (x_split s))) [0..<lfq_k s]))"
proof (induction m)
  case 0
  show ?case
    by (simp add: batch_loop_def map_replicate_const len sum_list_replicate)
next
  case (Suc m)
  let ?c = "nat (x_split s)"
  let ?PE = "position_entropy (temperature s) (eps s) bt"
  let ?PP = "position_probs (temperature s) bt"
  have step: "batch_loop s x (Suc m) = batch_step s bt x m (batch_loop s x m)"
    by (simp add: batch_loop_def bt)
  have conc: "(\<Sum>p\<leftarrow>concat (map (map ?PP) (x_chunk x ?c m)). p ! cl) =
      (\<Sum>r\<leftarrow>entries x. \<Sum>v\<leftarrow>take ?c (drop (m * ?c) r). ?PP v ! cl)" for cl
    by (simp add: sum_list_map_concat x_chunk_def comp_def)
  have fst_eq: "map2 (\<lambda>a r. a + sum_list r / real (size1 x))
        (map (\<lambda>r. (\<Sum>v\<leftarrow>take (m * ?c) r. ?PE v) / real (size1 x)) (entries x))
        (map (map ?PE) (x_chunk x ?c m)) =
      map (\<lambda>r. (\<Sum>v\<leftarrow>take (Suc m * ?c) r. ?PE v) / real (size1 x)) (entries x)"
    unfolding x_chunk_def map_map comp_def map2_map_map sum_list_take_Suc_chunk
    by (simp add: add_divide_distrib)
  have snd_eq: "add_bcast
        (map (\<lambda>c. (\<Sum>r\<leftarrow>entries x. \<Sum>v\<leftarrow>take (m * ?c) r. ?PP v ! c) /
                   real (size0 x * ?c)) [0..<lfq_k s])
        (map (\<lambda>cl. (\<Sum>p\<leftarrow>concat (map (map ?PP) (x_chunk x ?c m)). p ! cl) /
                   real (size0 x * ?c)) [0..<lfq_k s]) =
      map (\<lambda>c. (\<Sum>r\<leftarrow>entries x. \<Sum>v\<leftarrow>take (Suc m * ?c) r. ?PP v ! c) /
                   real (size0 x * ?c)) [0..<lfq_k s]"
    unfolding add_bcast_upt conc sum_list_take_Suc_chunk
    by (simp add: sum_list_addf add_divide_distrib)
  show ?case
    unfolding step Suc.IH batch_step_def Let_def fst_conv snd_conv k fst_eq
    by (simp only: map_replicate snd_eq)
qed

lemma wf_rows:
  assumes "wf_tensor3 x" and "r \<in> set (entries x)"
  shows "length r = size1 x"
  using assms by (simp add: wf_tensor3_def)

lemma wf_length_concat:
  assumes "wf_tensor3 x"
  shows "length (concat (entries x)) = size0 x * size1 x"
proof -
  from assms have "\<forall>r \<in> set (entries x). length r = size1 x" by (simp add: wf_tensor3_def)
  then have "length (concat (entries x)) = length (entries x) * size1 x"
    by (rule length_concat_const)
  with assms show ?thesis by (simp add: wf_tensor3_def)
qed

text \<open>The averaged distribution over every position of the batch sums to one.\<close>

lemma sum_list_avg_probs:
  assumes wf: "wf_tensor3 x" and k: "0 < ncols bt" and n: "0 < size0 x * size1 x"
  shows "(\<Sum>c\<leftarrow>[0..<ncols bt].
            (\<Sum>p\<leftarrow>concat (map (map (position_probs t bt)) (entries x)). p ! c) /
              real (size0 x * size1 x)) = 1"
proof -
  let ?ps = "concat (map (map (position_probs t bt)) (entries x))"
  have l: "\<forall>p \<in> set ?ps. length p = ncols bt"
    by (auto simp: length_position_probs)
  have one: "\<forall>p \<in> set ?ps. sum_list p = 1"
    using k by (auto simp: sum_list_position_probs)
  have len: "length ?ps = size0 x * size1 x"
    using wf_length_concat [OF wf] by (simp add: map_concat [symmetric] del: map_concat)
  have "(\<Sum>c\<leftarrow>[0..<ncols bt]. (\<Sum>p\<leftarrow>?ps. p ! c) / real (size0 x * size1 x)) =
      (\<Sum>c\<leftarrow>[0..<ncols bt]. \<Sum>p\<leftarrow>?ps. p ! c) / real (size0 x * size1 x)"
    by (rule sum_list_divide)
  also have "(\<Sum>c\<leftarrow>[0..<ncols bt]. \<Sum>p\<leftarrow>?ps. p ! c) = (\<Sum>p\<leftarrow>?ps. sum_list p)"
    using l by (rule sum_list_columns)
  also have "\<dots> = real (length ?ps) * 1"
    using one by (rule sum_list_const_one)
  finally show ?thesis using n unfolding len by simp
qed

lemma sum_list_concat_rows:
  fixes xss :: "real list list"
  shows "sum_list (concat xss) = (\<Sum>xs\<leftarrow>xss. sum_list xs)"
  by (induction xss) auto

lemma chunks_cover:
  assumes xs: "0 < xs" and dvd: "int S mod xs = 0"
  shows "nat (int S div xs) * nat xs = S" and "int S div xs = int (nat (int S div xs))"
proof -
  from xs have nn: "0 \<le> int S div xs" by (simp add: pos_imp_zdiv_nonneg_iff)
  then show "int S div xs = int (nat (int S div xs))" by simp
  from dvd have "int S div xs * xs = int S" by (simp add: mod_0_imp_dvd)
  then have "int (nat (int S div xs) * nat xs) = int S"
    using nn xs by simp
  then show "nat (int S div xs) * nat xs = S" by (simp only: of_nat_eq_iff)
qed

lemma calc_entro_by_batch_closed:
  assumes wf: "wf_tensor3 x" and bt: "book_t s = Some bt"
    and rows: "nrows bt = size2 x" and k: "ncols bt = lfq_k s" and kpos: "0 < lfq_k s"
    and xs: "0 < x_split s" and dvd: "int (size1 x) mod x_split s = 0"
    and B: "0 < size0 x" and S: "0 < size1 x"
  defines "avg \<equiv> map (\<lambda>c.
      (\<Sum>p\<leftarrow>concat (map (map (position_probs (temperature s) bt)) (entries x)). p ! c) /
        real (size0 x * size1 x)) [0..<ncols bt]"
  shows "calc_entro_by_batch s x =
      Inr ((sum_list (concat (map (map (position_entropy (temperature s) (eps s) bt)) (entries x))) /
              real (size0 x * size1 x),
            - (\<Sum>a\<leftarrow>avg. a * ln (a + eps s))),
           s\<lparr> mean_probs := Some (replicate (size0 x) avg) \<rparr>)"
    and "sum_list avg = 1"
proof -
  let ?c = "nat (x_split s)"
  define n where "n = nat (int (size1 x) div x_split s)"
  let ?PE = "position_entropy (temperature s) (eps s) bt"
  let ?PP = "position_probs (temperature s) bt"
  from chunks_cover [OF xs dvd]
  have nc: "n * ?c = size1 x" and ns: "int (size1 x) div x_split s = int n"
    unfolding n_def by simp_all
  from nc S have npos: "0 < n" by (cases "n") simp_all
  from wf have len: "length (entries x) = size0 x" by (simp add: wf_tensor3_def)
  have tk: "take (n * ?c) r = r" if "r \<in> set (entries x)" for r
    using wf_rows [OF wf that] nc by simp
  have e1: "map (\<lambda>r. (\<Sum>v\<leftarrow>take (n * ?c) r. ?PE v) / real (size1 x)) (entries x) =
      map (\<lambda>r. (\<Sum>v\<leftarrow>r. ?PE v) / real (size1 x)) (entries x)"
    by (rule map_cong) (simp_all add: tk)
  have e2: "(\<Sum>r\<leftarrow>entries x. \<Sum>v\<leftarrow>take (n * ?c) r. ?PP v ! cl) =
      (\<Sum>p\<leftarrow>concat (map (map ?PP) (entries x)). p ! cl)" for cl
  proof -
    have a: "map (\<lambda>r. \<Sum>v\<leftarrow>take (n * ?c) r. ?PP v ! cl) (entries x) =
        map (\<lambda>r. \<Sum>v\<leftarrow>r. ?PP v ! cl) (entries x)"
      by (rule map_cong) (simp_all add: tk)
    show ?thesis unfolding a by (simp add: sum_list_map_concat comp_def)
  qed
  have loop: "batch_loop s x n =
      (map (\<lambda>r. (\<Sum>v\<leftarrow>r. ?PE v) / real (size1 x)) (entries x),
       replicate (size0 x)
         (map (\<lambda>c. (\<Sum>p\<leftarrow>concat (map (map ?PP) (entries x)). p ! c) /
                   real (size0 x * ?c)) [0..<lfq_k s]))"
    unfolding batch_loop_closed [OF bt k len] e1 e2 ..
  have dv: "a / real (size0 x * ?c) / real n = a / real (size0 x * size1 x)" for a
  proof -
    have "size0 x * ?c * n = size0 x * (n * ?c)" by (simp add: mult.commute)
    then have "real (size0 x * ?c * n) = real (size0 x * size1 x)" by (simp only: nc)
    then have r2: "real (size0 x * ?c) * real n = real (size0 x * size1 x)"
      by (simp only: of_nat_mult)
    show ?thesis unfolding divide_divide_eq_left r2 ..
  qed
  have mp: "map ((\<lambda>a. a / real n) \<circ>
                (\<lambda>c. (\<Sum>p\<leftarrow>concat (map (map ?PP) (entries x)). p ! c) /
                      real (size0 x * ?c))) [0..<lfq_k s] = avg"
    unfolding avg_def k comp_def dv ..
  have one: "sum_list avg = 1"
    unfolding avg_def using B S by (intro sum_list_avg_probs [OF wf]) (simp_all add: k kpos)
  show "sum_list avg = 1" by (rule one)
  have m0: "replicate (size0 x) avg ! 0 = avg" using B by simp
  have em: "vec_mean (size0 x) (map (\<lambda>r. (\<Sum>v\<leftarrow>r. ?PE v) / real (size1 x)) (entries x)) =
      sum_list (concat (map (map ?PE) (entries x))) / real (size0 x * size1 x)"
  proof -
    have "sum_list (concat (map (map ?PE) (entries x))) = (\<Sum>r\<leftarrow>entries x. \<Sum>v\<leftarrow>r. ?PE v)"
      by (simp add: sum_list_concat_rows comp_def)
    moreover have "(\<Sum>r\<leftarrow>entries x. (\<Sum>v\<leftarrow>r. ?PE v) / real (size1 x)) =
        (\<Sum>r\<leftarrow>entries x. \<Sum>v\<leftarrow>r. ?PE v) / real (size1 x)"
      by (rule sum_list_divide)
    ultimately show ?thesis
      by (simp add: vec_mean_def divide_divide_eq_left mult.commute)
  qed
  have me: "vec_mean (size0 x) (entropy_of_rows (eps s) (replicate (size0 x) avg)) =
      - (\<Sum>a\<leftarrow>avg. a * ln (a + eps s))"
    using B by (simp add: vec_mean_def entropy_of_rows_def sum_list_replicate)
  show "calc_entro_by_batch s x =
      Inr ((sum_list (concat (map (map ?PE) (entries x))) / real (size0 x * size1 x),
            - (\<Sum>a\<leftarrow>avg. a * ln (a + eps s))),
           s\<lparr> mean_probs := Some (replicate (size0 x) avg) \<rparr>)"
    using xs dvd B
    by (simp add: calc_entro_by_batch_def Let_def bt rows k ns npos loop mp m0 one em me
        del: of_nat_mult)
qed

subsection \<open>The block loop: row sums\<close>

lemma sum_list_map2_add:
  fixes xs ys :: "real list"
  assumes "length xs = length ys"
  shows "sum_list (map2 (+) xs ys) = sum_list xs + sum_list ys"
  using assms by (induction xs ys rule: list_induct2) auto

lemma chunk_length:
  assumes "length r = n * c" and "i < n"
  shows "length (take c (drop (i * c) r)) = c"
proof -
  from assms(2) have "Suc i \<le> n" by simp
  then have "Suc i * c \<le> n * c" by (rule mult_le_mono1)
  then have "c \<le> n * c - i * c" by simp
  with assms(1) show ?thesis by simp
qed

text \<open>What one call of \<open>block_step\<close> adds to a row of the accumulator.\<close>

lemma block_increment_sum:
  assumes w: "0 < ncols sub" and pb: "pb = map (position_probs t sub) chunk"
  shows "length (map (\<lambda>c. (\<Sum>p\<leftarrow>pb. p ! c) / dn) [0..<ncols sub]) = ncols sub"
    and "sum_list (map (\<lambda>c. (\<Sum>p\<leftarrow>pb. p ! c) / dn) [0..<ncols sub]) = real (length chunk) / dn"
proof -
  show "length (map (\<lambda>c. (\<Sum>p\<leftarrow>pb. p ! c) / dn) [0..<ncols sub]) = ncols sub" by simp
  have l: "\<forall>p \<in> set pb. length p = ncols sub"
    unfolding pb by (auto simp: length_position_probs)
  have one: "\<forall>p \<in> set pb. sum_list p = 1"
    unfolding pb using w by (auto simp: sum_list_position_probs)
  have "(\<Sum>c\<leftarrow>[0..<ncols sub]. (\<Sum>p\<leftarrow>pb. p ! c) / dn) =
      (\<Sum>c\<leftarrow>[0..<ncols sub]. \<Sum>p\<leftarrow>pb. p ! c) / dn"
    by (rule sum_list_divide)
  also have "(\<Sum>c\<leftarrow>[0..<ncols sub]. \<Sum>p\<leftarrow>pb. p ! c) = (\<Sum>p\<leftarrow>pb. sum_list p)"
    using l by (rule sum_list_columns)
  also have "\<dots> = real (length pb) * 1" using one by (rule sum_list_const_one)
  finally show "sum_list (map (\<lambda>c. (\<Sum>p\<leftarrow>pb. p ! c) / dn) [0..<ncols sub]) =
      real (length chunk) / dn"
    by (simp add: pb)
qed

lemma block_step_rows_sum:
  assumes wf: "wf_tensor3 x" and cover: "n * nat (x_split s) = size1 x" and i: "i < n"
    and w: "0 < ncols sub"
    and inv: "rows_sum (size0 x) (ncols sub) t acc"
  shows "rows_sum (size0 x) (ncols sub)
           (t + real (nat (x_split s)) / real (size1 x * length rs))
           (block_step s rs x i sub acc)"
proof -
  let ?c = "nat (x_split s)"
  let ?dn = "real (size1 x * length rs)"
  let ?probs = "map (map (position_probs (temperature s) sub)) (x_chunk x ?c i)"
  let ?inc = "\<lambda>pb. map (\<lambda>c. (\<Sum>p\<leftarrow>pb. p ! c) / ?dn) [0..<ncols sub]"
  from wf have len: "length (entries x) = size0 x" by (simp add: wf_tensor3_def)
  have snd_eq: "snd (block_step s rs x i sub acc) =
      map2 (\<lambda>row pb. add_bcast row (?inc pb)) (snd acc) ?probs"
    by (simp add: block_step_def Let_def)
  have l: "length (snd (block_step s rs x i sub acc)) = size0 x"
    unfolding snd_eq using inv len by (simp add: rows_sum_def x_chunk_def)
  have r: "length row' = ncols sub \<and>
      sum_list row' = t + real ?c / ?dn"
    if "row' \<in> set (snd (block_step s rs x i sub acc))" for row'
  proof -
    from that obtain row pb where z: "(row, pb) \<in> set (zip (snd acc) ?probs)"
      and row': "row' = add_bcast row (?inc pb)"
      unfolding snd_eq by auto
    from z have "row \<in> set (snd acc)" by (rule set_zip_leftD)
    with inv have row: "length row = ncols sub" "sum_list row = t" by (simp_all add: rows_sum_def)
    from z have "pb \<in> set ?probs" by (rule set_zip_rightD)
    then obtain rr where rr: "rr \<in> set (entries x)"
      and pb: "pb = map (position_probs (temperature s) sub) (take ?c (drop (i * ?c) rr))"
      by (auto simp: x_chunk_def)
    from wf_rows [OF wf rr] cover have "length rr = n * ?c" by simp
    then have cl: "length (take ?c (drop (i * ?c) rr)) = ?c" using i by (rule chunk_length)
    from block_increment_sum [OF w pb, of ?dn] cl
    have inc: "length (?inc pb) = ncols sub" "sum_list (?inc pb) = real ?c / ?dn" by simp_all
    from row(1) inc(1) have same: "length row = length (?inc pb)" by simp
    have "row' = map2 (+) row (?inc pb)"
      unfolding row' using same by (rule add_bcast_same_length)
    then show ?thesis
      using sum_list_map2_add [OF same] row inc by simp
  qed
  from l r show ?thesis by (simp add: rows_sum_def)
qed

lemma block_inner_rows_sum:
  assumes wf: "wf_tensor3 x" and cover: "n * nat (x_split s) = size1 x"
    and w: "0 < ncols sub" and m: "m \<le> n"
    and q: "q = real (nat (x_split s)) / real (size1 x * length rs)"
    and inv: "rows_sum (size0 x) (ncols sub) t acc"
  shows "rows_sum (size0 x) (ncols sub) (t + real m * q)
           (fold (\<lambda>i. block_step s rs x i sub) [0..<m] acc)"
  using m
proof (induction m)
  case 0
  with inv show ?case by simp
next
  case (Suc m)
  then have "m < n" and "m \<le> n" by simp_all
  from block_step_rows_sum [OF wf cover \<open>m < n\<close> w Suc.IH [OF \<open>m \<le> n\<close>], of rs]
  have st: "rows_sum (size0 x) (ncols sub) (t + real m * q + q)
      (block_step s rs x m sub (fold (\<lambda>i. block_step s rs x i sub) [0..<m] acc))"
    unfolding q .
  have e: "t + real (Suc m) * q = t + real m * q + q" by (simp add: algebra_simps)
  have f: "fold (\<lambda>i. block_step s rs x i sub) [0..<Suc m] acc =
      block_step s rs x m sub (fold (\<lambda>i. block_step s rs x i sub) [0..<m] acc)"
    by simp
  show ?case unfolding e f by (rule st)
qed

lemma block_outer_rows_sum:
  assumes wf: "wf_tensor3 x" and cover: "n * nat (x_split s) = size1 x" and sb: "0 < sb"
    and q: "q = real (nat (x_split s)) / real (size1 x * length rs)"
    and shape: "\<forall>r \<in> set rl. ncols (gen (lfq_d s) (fst r) (snd r)) = sb"
    and inv: "rows_sum (size0 x) sb t acc"
  shows "rows_sum (size0 x) sb (t + real (length rl) * (real n * q))
           (fold (\<lambda>r acc. fold (\<lambda>i. block_step s rs x i (gen (lfq_d s) (fst r) (snd r))) [0..<n] acc)
              rl acc)"
  using shape inv
proof (induction rl arbitrary: acc t)
  case Nil
  then show ?case by simp
next
  case (Cons r rl)
  let ?sub = "gen (lfq_d s) (fst r) (snd r)"
  let ?F = "\<lambda>r acc. fold (\<lambda>i. block_step s rs x i (gen (lfq_d s) (fst r) (snd r))) [0..<n] acc"
  from Cons.prems(1) have c: "ncols ?sub = sb"
    and rest: "\<forall>r \<in> set rl. ncols (gen (lfq_d s) (fst r) (snd r)) = sb"
    by simp_all
  from sb c have w: "0 < ncols ?sub" by simp
  from Cons.prems(2) c have "rows_sum (size0 x) (ncols ?sub) t acc" by simp
  from block_inner_rows_sum [OF wf cover w le_refl q this]
  have "rows_sum (size0 x) sb (t + real n * q) (?F r acc)"
    unfolding c .
  from Cons.IH [OF rest this]
  have st: "rows_sum (size0 x) sb (t + real n * q + real (length rl) * (real n * q))
      (fold ?F rl (?F r acc))" .
  have e: "t + real (length (r # rl)) * (real n * q) =
      t + real n * q + real (length rl) * (real n * q)"
    by (simp add: algebra_simps)
  have f: "fold ?F (r # rl) acc = fold ?F rl (?F r acc)" by simp
  show ?case unfolding e f by (rule st)
qed

lemma rows_sum_init: "rows_sum b w 0 (replicate b 0, replicate b (replicate w 0))"
  by (simp add: rows_sum_def sum_list_replicate)

lemma block_loop_rows_sum:
  assumes wf: "wf_tensor3 x" and xs: "0 < x_split s" and dvd: "int (size1 x) mod x_split s = 0"
    and S: "0 < size1 x" and sb: "0 < sb" and rs: "rs \<noteq> []"
    and shape: "\<forall>r \<in> set rs. ncols (gen (lfq_d s) (fst r) (snd r)) = sb"
  shows "rows_sum (size0 x) sb 1
           (block_loop gen s rs sb x (nat (int (size1 x) div x_split s)))"
proof -
  define n where "n = nat (int (size1 x) div x_split s)"
  define q where "q = real (nat (x_split s)) / real (size1 x * length rs)"
  from chunks_cover(1) [OF xs dvd] have cover: "n * nat (x_split s) = size1 x"
    by (simp add: n_def)
  from rs have lpos: "0 < length rs" by simp
  have "real (length rs) * (real n * q) =
      real (length rs) * real (n * nat (x_split s)) / real (size1 x * length rs)"
    by (simp add: q_def)
  also have "\<dots> = 1" unfolding cover using S lpos by simp
  finally have one: "0 + real (length rs) * (real n * q) = 1" by simp
  have init: "rows_sum (size0 x) sb 0
      (replicate (size0 x) 0, replicate (size0 x) (replicate sb 0))"
    by (rule rows_sum_init)
  have "rows_sum (size0 x) sb (0 + real (length rs) * (real n * q))
      (fold (\<lambda>r acc. fold (\<lambda>i. block_step s rs x i (gen (lfq_d s) (fst r) (snd r))) [0..<n] acc)
         rs (replicate (size0 x) 0, replicate (size0 x) (replicate sb 0)))"
    using wf cover sb q_def shape init
    by (rule block_outer_rows_sum [where gen = gen and rl = rs and rs = rs])
  then show ?thesis unfolding one block_loop_def n_def [symmetric] .
qed

lemma block_step_debug: "block_step (s\<lparr> debug := b \<rparr>) = block_step s"
  by (intro ext) (simp add: block_step_def)

lemma block_loop_debug: "block_loop gen (s\<lparr> debug := b \<rparr>) = block_loop gen s"
  by (intro ext) (simp add: block_loop_def block_step_debug)

lemma calc_entro_block_debug:
  "calc_entro_block gen (s\<lparr> debug := b \<rparr>) x = calc_entro_block gen s x"
  by (simp add: calc_entro_block_def block_loop_debug Let_def split: option.splits)

lemma replicate_4: "replicate 4 a = [a, a, a, a]"
  by (simp add: numeral_eq_Suc)

lemma replicate_2: "replicate 2 a = [a, a]"
  by (simp add: numeral_eq_Suc)

lemma calc_entro_block_closed:
  assumes xs: "0 < x_split s" and dvd: "int (size1 x) mod x_split s = 0"
    and sb: "subbook_size s = Some sb" and rs: "subbook_ranges s = Some rs"
    and shape: "\<forall>r \<in> set rs. nrows (gen (lfq_d s) (fst r) (snd r)) = size2 x \<and>
                  ncols (gen (lfq_d s) (fst r) (snd r)) = sb"
  shows "calc_entro_block gen s x =
      Inr (vec_mean (size0 x)
             (fst (block_loop gen s rs sb x (nat (int (size1 x) div x_split s)))),
           vec_mean (size0 x)
             (entropy_of_rows (eps s)
                (snd (block_loop gen s rs sb x (nat (int (size1 x) div x_split s))))))"
proof -
  have "\<not> list_ex (\<lambda>r. nrows (gen (lfq_d s) (fst r) (snd r)) \<noteq> size2 x \<or>
                            (ncols (gen (lfq_d s) (fst r) (snd r)) \<noteq> sb \<and>
                             ncols (gen (lfq_d s) (fst r) (snd r)) \<noteq> 1)) rs"
    using shape by (simp add: list_ex_iff)
  then show ?thesis
    using xs dvd by (simp add: calc_entro_block_def sb rs Let_def)
qed

text \<open>
  Counterexample to claim C8 as stated: with debugging on and the chunk size \<open>-2\<close>
  (which divides the sequence length \<open>2\<close> and gives no chunk), both estimators
  return normally although every row of the final mean-probability tensor sums to
  \<open>0\<close>.  The assertion of \<open>calc_entro_by_batch\<close> bounds the magnitude of the sum by
  \<open>1.1\<close> and nothing more; \<open>calc_entro_block\<close> asserts nothing.
\<close>

theorem debug_assertion_counterexample:
  "debug ex_debug_batch \<and>
   init_books ex_debug_batch =
     Inr (ex_debug_batch\<lparr> mode := Some X_BATCH,
                           book_t := Some (float_t 4 2 (make_book 2 4)) \<rparr>) \<and>
   calc_entro_by_batch
     (ex_debug_batch\<lparr> mode := Some X_BATCH, book_t := Some (float_t 4 2 (make_book 2 4)) \<rparr>)
     ex_x =
     Inr ((0, 0),
          ex_debug_batch\<lparr> mode := Some X_BATCH, book_t := Some (float_t 4 2 (make_book 2 4)),
                          mean_probs := Some [[0, 0, 0, 0]] \<rparr>) \<and>
   \<not> \<bar>sum_list [0, 0, 0, 0 :: real] - 1\<bar> \<le> 1 / 10 \<and>
   debug ex_debug_block \<and>
   init_books ex_debug_block =
     Inr (ex_debug_block\<lparr> mode := Some BLOCK, subbook_size := Some 2, num_subbooks := Some 2,
                           subbook_ranges := Some [(0, 2), (2, 4)] \<rparr>) \<and>
   calc_entro_block generate_sub_book_t
     (ex_debug_block\<lparr> mode := Some BLOCK, subbook_size := Some 2, num_subbooks := Some 2,
                       subbook_ranges := Some [(0, 2), (2, 4)] \<rparr>) ex_x = Inr (0, 0) \<and>
   snd (block_loop generate_sub_book_t
     (ex_debug_block\<lparr> mode := Some BLOCK, subbook_size := Some 2, num_subbooks := Some 2,
                       subbook_ranges := Some [(0, 2), (2, 4)] \<rparr>) [(0, 2), (2, 4)] 2 ex_x
     (nat (int (size1 ex_x) div x_split ex_debug_block))) = [[0, 0]] \<and>
   \<not> \<bar>sum_list [0, 0 :: real] - 1\<bar> \<le> 1 / 10"
  by (simp add: ex_debug_batch_def ex_debug_block_def LFQ_init_def init_books_def ex_x_def
      calc_entro_by_batch_def calc_entro_block_def batch_loop_def block_loop_def Let_def
      vec_mean_def entropy_of_rows_def upt_rec generate_sub_book_t_def replicate_4 replicate_2)

text \<open>
  Claim C8, amended.  In exact arithmetic, for a well-formed batch with at least one
  sample and one position and a positive chunk size that divides the sequence
  length, every row of the final mean-probability tensor sums to \<open>1\<close>: in
  \<open>calc_entro_by_batch\<close> for a book with \<open>k > 0\<close> columns, where the debug assertion
  \<open>\<bar>sum of row 0\<bar> < 1.1\<close> therefore passes, and in \<open>calc_entro_block\<close> for subbooks
  of the configured width, where there is no assertion: the result is the same with
  debugging on and off.
\<close>

theorem mean_probs_sum_one:
  assumes wf: "wf_tensor3 x" and B: "0 < size0 x" and S: "0 < size1 x"
    and xs: "0 < x_split s" and dvd: "int (size1 x) mod x_split s = 0"
  shows "(\<forall>bt. book_t s = Some bt \<and> nrows bt = size2 x \<and> ncols bt = lfq_k s \<and> 0 < lfq_k s \<longrightarrow>
            (\<exists>r mp. calc_entro_by_batch s x = Inr (r, s\<lparr> mean_probs := Some mp \<rparr>) \<and>
               length mp = size0 x \<and> (\<forall>row \<in> set mp. sum_list row = 1) \<and>
               \<bar>sum_list (mp ! 0)\<bar> < 11 / 10)) \<and>
         (\<forall>sb rs. subbook_size s = Some sb \<and> subbook_ranges s = Some rs \<and> 0 < sb \<and> rs \<noteq> [] \<and>
            (\<forall>r \<in> set rs. nrows (gen (lfq_d s) (fst r) (snd r)) = size2 x \<and>
                           ncols (gen (lfq_d s) (fst r) (snd r)) = sb) \<longrightarrow>
            (\<exists>r. calc_entro_block gen s x = Inr r \<and>
               calc_entro_block gen (s\<lparr> debug := True \<rparr>) x = Inr r \<and>
               calc_entro_block gen (s\<lparr> debug := False \<rparr>) x = Inr r \<and>
               length (snd (block_loop gen s rs sb x (nat (int (size1 x) div x_split s)))) =
                 size0 x \<and>
               (\<forall>row \<in> set (snd (block_loop gen s rs sb x (nat (int (size1 x) div x_split s)))).
                  sum_list row = 1)))"
proof (intro conjI allI impI)
  fix bt
  assume a: "book_t s = Some bt \<and> nrows bt = size2 x \<and> ncols bt = lfq_k s \<and> 0 < lfq_k s"
  define avg where "avg = map (\<lambda>c.
      (\<Sum>p\<leftarrow>concat (map (map (position_probs (temperature s) bt)) (entries x)). p ! c) /
        real (size0 x * size1 x)) [0..<ncols bt]"
  from a have bt: "book_t s = Some bt" and rows: "nrows bt = size2 x"
    and k: "ncols bt = lfq_k s" and kpos: "0 < lfq_k s" by simp_all
  note c = calc_entro_by_batch_closed [OF wf bt rows k kpos xs dvd B S, folded avg_def]
  have "length (replicate (size0 x) avg) = size0 x" by simp
  moreover have "\<forall>row \<in> set (replicate (size0 x) avg). sum_list row = 1"
    using c(2) by simp
  moreover have "\<bar>sum_list (replicate (size0 x) avg ! 0)\<bar> < 11 / 10"
    using c(2) B by simp
  ultimately show "\<exists>r mp. calc_entro_by_batch s x = Inr (r, s\<lparr> mean_probs := Some mp \<rparr>) \<and>
      length mp = size0 x \<and> (\<forall>row \<in> set mp. sum_list row = 1) \<and>
      \<bar>sum_list (mp ! 0)\<bar> < 11 / 10"
    using c(1) by blast
next
  fix sb rs
  assume a: "subbook_size s = Some sb \<and> subbook_ranges s = Some rs \<and> 0 < sb \<and> rs \<noteq> [] \<and>
      (\<forall>r \<in> set rs. nrows (gen (lfq_d s) (fst r) (snd r)) = size2 x \<and>
                     ncols (gen (lfq_d s) (fst r) (snd r)) = sb)"
  let ?n = "nat (int (size1 x) div x_split s)"
  from a have sb: "subbook_size s = Some sb" and rs: "subbook_ranges s = Some rs"
    and sbpos: "0 < sb" and ne: "rs \<noteq> []"
    and shape: "\<forall>r \<in> set rs. nrows (gen (lfq_d s) (fst r) (snd r)) = size2 x \<and>
                     ncols (gen (lfq_d s) (fst r) (snd r)) = sb" by simp_all
  from shape have cols: "\<forall>r \<in> set rs. ncols (gen (lfq_d s) (fst r) (snd r)) = sb" by simp
  note c = calc_entro_block_closed [where gen = gen, OF xs dvd sb rs shape]
  from block_loop_rows_sum [where gen = gen, OF wf xs dvd S sbpos ne cols]
  have l: "length (snd (block_loop gen s rs sb x ?n)) = size0 x"
    and o: "\<forall>row \<in> set (snd (block_loop gen s rs sb x ?n)). sum_list row = 1"
    by (simp_all add: rows_sum_def)
  from c l o show "\<exists>r. calc_entro_block gen s x = Inr r \<and>
      calc_entro_block gen (s\<lparr> debug := True \<rparr>) x = Inr r \<and>
      calc_entro_block gen (s\<lparr> debug := False \<rparr>) x = Inr r \<and>
      length (snd (block_loop gen s rs sb x ?n)) = size0 x \<and>
      (\<forall>row \<in> set (snd (block_loop gen s rs sb x ?n)). sum_list row = 1)"
    unfolding calc_entro_block_debug by blast
qed

theorem mean_probs_sum_one_witness:
  "(\<exists>r mp. calc_entro_by_batch
       (ex_debug_pos\<lparr> mode := Some X_BATCH, book_t := Some (float_t 4 2 (make_book 2 4)) \<rparr>) ex_x =
       Inr (r, ex_debug_pos\<lparr> mode := Some X_BATCH, book_t := Some (float_t 4 2 (make_book 2 4)),
                             mean_probs := Some mp \<rparr>) \<and>
       length mp = 1 \<and> (\<forall>row \<in> set mp. sum_list row = 1)) \<and>
   (\<exists>r. calc_entro_block generate_sub_book_t
       (ex_debug_pos\<lparr> mode := Some BLOCK, subbook_size := Some 2, num_subbooks := Some 2,
                       subbook_ranges := Some [(0, 2), (2, 4)] \<rparr>) ex_x = Inr r \<and>
      (\<forall>row \<in> set (snd (block_loop generate_sub_book_t
           (ex_debug_pos\<lparr> mode := Some BLOCK, subbook_size := Some 2, num_subbooks := Some 2,
                           subbook_ranges := Some [(0, 2), (2, 4)] \<rparr>) [(0, 2), (2, 4)] 2 ex_x 1)).
         sum_list row = 1))"
proof -
  let ?sb = "ex_debug_pos\<lparr> mode := Some X_BATCH, book_t := Some (float_t 4 2 (make_book 2 4)) \<rparr>"
  let ?sk = "ex_debug_pos\<lparr> mode := Some BLOCK, subbook_size := Some 2, num_subbooks := Some 2,
                       subbook_ranges := Some [(0, 2), (2, 4)] \<rparr>"
  have wf: "wf_tensor3 ex_x" by (simp add: ex_x_def wf_tensor3_def)
  have B: "0 < size0 ex_x" and S: "0 < size1 ex_x" by (simp_all add: ex_x_def)
  have xb: "0 < x_split ?sb" "int (size1 ex_x) mod x_split ?sb = 0"
    by (simp_all add: ex_debug_pos_def LFQ_init_def ex_x_def)
  have xk: "0 < x_split ?sk" "int (size1 ex_x) mod x_split ?sk = 0"
    by (simp_all add: ex_debug_pos_def LFQ_init_def ex_x_def)
  have hb: "book_t ?sb = Some (float_t 4 2 (make_book 2 4)) \<and>
      nrows (float_t 4 2 (make_book 2 4)) = size2 ex_x \<and>
      ncols (float_t 4 2 (make_book 2 4)) = lfq_k ?sb \<and> 0 < lfq_k ?sb"
    by (simp add: float_t_def ex_x_def ex_debug_pos_def LFQ_init_def)
  have hk: "subbook_size ?sk = Some 2 \<and> subbook_ranges ?sk = Some [(0, 2), (2, 4)] \<and>
      0 < (2::nat) \<and> [(0, 2), (2, 4)] \<noteq> ([] :: (nat \<times> nat) list) \<and>
      (\<forall>r \<in> set [(0, 2), (2, 4)].
         nrows (generate_sub_book_t (lfq_d ?sk) (fst r) (snd r)) = size2 ex_x \<and>
         ncols (generate_sub_book_t (lfq_d ?sk) (fst r) (snd r)) = 2)"
    by (simp add: generate_sub_book_t_def ex_x_def ex_debug_pos_def LFQ_init_def)
  have n: "nat (int (size1 ex_x) div x_split ?sk) = 1"
    by (simp add: ex_debug_pos_def LFQ_init_def ex_x_def)
  from mean_probs_sum_one [OF wf B S xb, of generate_sub_book_t] hb
  have 1: "\<exists>r mp. calc_entro_by_batch ?sb ex_x = Inr (r, ?sb\<lparr> mean_probs := Some mp \<rparr>) \<and>
      length mp = size0 ex_x \<and> (\<forall>row \<in> set mp. sum_list row = 1) \<and>
      \<bar>sum_list (mp ! 0)\<bar> < 11 / 10"
    by blast
  from mean_probs_sum_one [OF wf B S xk, of generate_sub_book_t] hk
  have 2: "\<exists>r. calc_entro_block generate_sub_book_t ?sk ex_x = Inr r \<and>
      calc_entro_block generate_sub_book_t (?sk\<lparr> debug := True \<rparr>) ex_x = Inr r \<and>
      calc_entro_block generate_sub_book_t (?sk\<lparr> debug := False \<rparr>) ex_x = Inr r \<and>
      length (snd (block_loop generate_sub_book_t ?sk [(0, 2), (2, 4)] 2 ex_x
        (nat (int (size1 ex_x) div x_split ?sk)))) = size0 ex_x \<and>
      (\<forall>row \<in> set (snd (block_loop generate_sub_book_t ?sk [(0, 2), (2, 4)] 2 ex_x
        (nat (int (size1 ex_x) div x_split ?sk)))). sum_list row = 1)"
    by blast
  have sz: "size0 ex_x = 1" by (simp add: ex_x_def)
  from 1 [unfolded sz]
  have 1: "\<exists>r mp. calc_entro_by_batch ?sb ex_x = Inr (r, ?sb\<lparr> mean_probs := Some mp \<rparr>) \<and>
      length mp = 1 \<and> (\<forall>row \<in> set mp. sum_list row = 1)"
    by blast
  from 2 [unfolded n]
  have 2: "\<exists>r. calc_entro_block generate_sub_book_t ?sk ex_x = Inr r \<and>
      (\<forall>row \<in> set (snd (block_loop generate_sub_book_t ?sk [(0, 2), (2, 4)] 2 ex_x 1)).
         sum_list row = 1)"
    by blast
  from 1 2 show ?thesis by (rule conjI)
qed

section \<open>Vanilla against chunked-batch\<close>




end
